theory Spec2Isabelle
  imports Main "HOL-Library.Word" "HOL-Library.AList"
begin

section \<open>JavaScript strings\<close>

text \<open>
  A JavaScript string is a sequence of UTF-16 code units; \<open>s.length\<close> counts
  code units, and a regular expression without the \<open>u\<close> flag matches code unit by
  code unit. String literals of the source are written \<open>js ''...''\<close>.
\<close>

type_synonym codeunit = "16 word"
type_synonym jsstring = "codeunit list"

definition js :: "string \<Rightarrow> jsstring" where
  "js s = map of_char s"

text \<open>
  The class \<open>\s\<close> of a regular expression, which is also what \<open>trim()\<close> and
  \<open>parseInt\<close> skip: the white space and line terminator code points of ECMAScript.
\<close>

definition isSpace :: "codeunit \<Rightarrow> bool" where
  "isSpace c \<longleftrightarrow>
     (0x09 \<le> c \<and> c \<le> 0x0D) \<or> c = 0x20 \<or> c = 0xA0 \<or> c = 0x1680 \<or>
     (0x2000 \<le> c \<and> c \<le> 0x200A) \<or> c = 0x2028 \<or> c = 0x2029 \<or> c = 0x202F \<or>
     c = 0x205F \<or> c = 0x3000 \<or> c = 0xFEFF"

text \<open>The class \<open>\d\<close>: \<open>[0-9]\<close>.\<close>

definition isDigit :: "codeunit \<Rightarrow> bool" where
  "isDigit c \<longleftrightarrow> 0x30 \<le> c \<and> c \<le> 0x39"

text \<open>The class \<open>\w\<close>: \<open>[A-Za-z0-9_]\<close>.\<close>

definition isWord :: "codeunit \<Rightarrow> bool" where
  "isWord c \<longleftrightarrow>
     (0x41 \<le> c \<and> c \<le> 0x5A) \<or> (0x61 \<le> c \<and> c \<le> 0x7A) \<or> isDigit c \<or> c = 0x5F"

text \<open>
  Matching an ASCII letter of a pattern under the \<open>i\<close> flag (without \<open>u\<close>): both
  sides are canonicalised with \<open>toUpperCase\<close>, except that a code unit from U+0080 on is
  never mapped into ASCII. So a lower-case ASCII letter \<open>p\<close> of the pattern matches exactly
  \<open>p\<close> and its upper-case form.
\<close>

definition asciiLower :: "codeunit \<Rightarrow> codeunit" where
  "asciiLower c = (if 0x41 \<le> c \<and> c \<le> 0x5A then c + 0x20 else c)"

text \<open>\<open>s.trim()\<close>: white space is dropped at both ends.\<close>

definition trimStart :: "jsstring \<Rightarrow> jsstring" where
  "trimStart s = dropWhile isSpace s"

definition trimEnd :: "jsstring \<Rightarrow> jsstring" where
  "trimEnd s = rev (dropWhile isSpace (rev s))"

definition trim :: "jsstring \<Rightarrow> jsstring" where
  "trim s = trimEnd (trimStart s)"

text \<open>
  \<open>new TextEncoder().encode(s).length\<close>: the length of the UTF-8 encoding. A code
  unit below U+0080 takes one byte, one below U+0800 two; a high surrogate followed by a
  low surrogate is one code point of four bytes; every other code unit, a lone surrogate
  included (encoded as U+FFFD), takes three.
\<close>

definition isHighSurrogate :: "codeunit \<Rightarrow> bool" where
  "isHighSurrogate c \<longleftrightarrow> 0xD800 \<le> c \<and> c \<le> 0xDBFF"

definition isLowSurrogate :: "codeunit \<Rightarrow> bool" where
  "isLowSurrogate c \<longleftrightarrow> 0xDC00 \<le> c \<and> c \<le> 0xDFFF"

fun utf8Length :: "jsstring \<Rightarrow> nat" where
  "utf8Length [] = 0"
| "utf8Length [c] = (if c < 0x80 then 1 else if c < 0x800 then 2 else 3)"
| "utf8Length (c # d # cs) =
     (if c < 0x80 then 1 + utf8Length (d # cs)
      else if c < 0x800 then 2 + utf8Length (d # cs)
      else if isHighSurrogate c \<and> isLowSurrogate d then 4 + utf8Length cs
      else 3 + utf8Length (d # cs))"

section \<open>Sanitizer\<close>

text \<open>
  \<open>s.replace(re, '')\<close> for a global regular expression \<open>re\<close>: the string is
  scanned from the left; where \<open>re\<close> matches, the match is dropped and the scan goes on
  behind it, elsewhere the code unit is kept. A matcher gets the code unit before the
  position (for \<open>\b\<close>) and the rest of the string, and returns the length of the match
  there. None of the expressions below matches the empty string.
\<close>

type_synonym matcher = "codeunit option \<Rightarrow> jsstring \<Rightarrow> nat option"

fun removeAll_re :: "matcher \<Rightarrow> codeunit option \<Rightarrow> jsstring \<Rightarrow> jsstring" where
  "removeAll_re m prev [] = []"
| "removeAll_re m prev (c # cs) =
     (case m prev (c # cs) of
        Some (Suc k) \<Rightarrow> removeAll_re m (Some ((c # cs) ! k)) (drop k cs)
      | _ \<Rightarrow> c # removeAll_re m (Some c) cs)"

text \<open>
  \<open>/<[^>]*?>/\<close>: a \<open><\<close>, then as few code units other than \<open>>\<close> as possible,
  then \<open>>\<close>: from a \<open><\<close> to the first \<open>>\<close> behind it.
\<close>

definition matchTag :: matcher where
  "matchTag prev s =
     (case s of
        [] \<Rightarrow> None
      | c # cs \<Rightarrow>
          if c = 0x3C \<and> 0x3E \<in> set cs
          then Some (length (takeWhile (\<lambda>x. x \<noteq> 0x3E) cs) + 2)
          else None)"

text \<open>
  \<open>/\bon\w+\s*=/i\<close>: at a word boundary, \<open>on\<close> in either case, one or more word
  characters, any white space, \<open>=\<close>. The position is a word boundary when no word
  character stands before it (the \<open>o\<close> behind it is one). Both repetitions are greedy,
  and giving back a code unit never helps: behind a shorter run of word characters stands
  a word character, behind a shorter run of white space stands white space, and neither is
  \<open>=\<close>.
\<close>

definition matchOn :: matcher where
  "matchOn prev s =
     (case s of
        c1 # c2 # rest \<Rightarrow>
          (let w = takeWhile isWord rest;
               sp = takeWhile isSpace (dropWhile isWord rest);
               after = dropWhile isSpace (dropWhile isWord rest)
           in if (case prev of None \<Rightarrow> True | Some p \<Rightarrow> \<not> isWord p) \<and>
                 asciiLower c1 = 0x6F \<and> asciiLower c2 = 0x6E \<and>
                 w \<noteq> [] \<and> after \<noteq> [] \<and> hd after = 0x3D
              then Some (2 + length w + length sp + 1)
              else None)
      | _ \<Rightarrow> None)"

text \<open>
  \<open>/javascript\s*:/i\<close>: the ten letters in either case, any white space, \<open>:\<close>.
\<close>

definition matchJs :: matcher where
  "matchJs prev s =
     (let sp = takeWhile isSpace (drop 10 s);
          after = dropWhile isSpace (drop 10 s)
      in if map asciiLower (take 10 s) = js ''javascript'' \<and> after \<noteq> [] \<and> hd after = 0x3A
         then Some (10 + length sp + 1)
         else None)"

text \<open>\<open>RE_CTRL = /[\u0000-\u001F\u007F]/g\<close>, replaced by a space.\<close>

definition isCtrl :: "codeunit \<Rightarrow> bool" where
  "isCtrl c \<longleftrightarrow> c \<le> 0x1F \<or> c = 0x7F"

definition replaceCtrl :: "jsstring \<Rightarrow> jsstring" where
  "replaceCtrl s = map (\<lambda>c. if isCtrl c then 0x20 else c) s"

text \<open>\<open>RE_BIDI = /[\u200E\u200F\u202A-\u202E\u2066-\u2069]/g\<close>, removed.\<close>

definition isBidi :: "codeunit \<Rightarrow> bool" where
  "isBidi c \<longleftrightarrow>
     c = 0x200E \<or> c = 0x200F \<or> (0x202A \<le> c \<and> c \<le> 0x202E) \<or> (0x2066 \<le> c \<and> c \<le> 0x2069)"

definition removeBidi :: "jsstring \<Rightarrow> jsstring" where
  "removeBidi s = filter (\<lambda>c. \<not> isBidi c) s"

text \<open>
  \<open>v.normalize('NFKC')\<close> is a built-in of the platform and its tables are not part of
  the repository. A string of ASCII code units only is in every normalisation form, so it
  is returned as it is; for every other string the normalisation is the parameter
  \<open>nfkc\<close>.
\<close>

definition isAscii :: "jsstring \<Rightarrow> bool" where
  "isAscii s \<longleftrightarrow> list_all (\<lambda>c. c < 0x80) s"

definition normalizeNFKC :: "(jsstring \<Rightarrow> jsstring) \<Rightarrow> jsstring \<Rightarrow> jsstring" where
  "normalizeNFKC nfkc s = (if isAscii s then s else nfkc s)"

text \<open>The string branch of \<open>sanitizeValue\<close>, the same in both intake workers.\<close>

definition sanitizeString :: "(jsstring \<Rightarrow> jsstring) \<Rightarrow> jsstring \<Rightarrow> jsstring" where
  "sanitizeString nfkc v =
     (let s = removeBidi (replaceCtrl (normalizeNFKC nfkc v));
          s = removeAll_re matchTag None s;
          s = removeAll_re matchOn None s;
          s = removeAll_re matchJs None s
      in trim s)"

section \<open>Values\<close>

text \<open>
  The values that \<open>JSON.parse\<close> returns. An object is the list of its own
  properties in the order of \<open>Object.keys\<close>, with distinct keys. A number is given
  by the string that \<open>String(n)\<close> yields for it (\<open>0\<close> for zero), which is all
  the workers ever read of a number. A property that is not there reads as
  \<open>undefined\<close>, here \<open>None\<close>. Properties inherited from \<open>Object.prototype\<close>
  are not modelled: the workers read the properties \<open>form\<close>, \<open>fields\<close> and the
  schemas' field names only, and none of these is inherited. Objects with a key
  \<open>__proto__\<close> (which \<open>o[k] = ...\<close> in \<open>sanitizeValue\<close> would turn into
  the prototype of \<open>o\<close>) or \<open>toString\<close> (which makes \<open>String(o)\<close> throw a
  \<open>TypeError\<close>) are outside the model; \<open>plainJson\<close> below holds of the
  values that have none.
\<close>

datatype jsval =
    VNull
  | VBool bool
  | VNum jsstring
  | VStr jsstring
  | VArr "jsval list"
  | VObj "(jsstring \<times> jsval) list"

text \<open>Decimal digits of a number, as \<open>String(i)\<close> gives them for an index or a status.\<close>

fun showNat :: "nat \<Rightarrow> jsstring" where
  "showNat n = (if n < 10 then [0x30 + of_nat n] else showNat (n div 10) @ [0x30 + of_nat (n mod 10)])"

definition showInt :: "int \<Rightarrow> jsstring" where
  "showInt i = (if i < 0 then 0x2D # showNat (nat (- i)) else showNat (nat i))"

text \<open>
  The own enumerable properties: of an array, its elements under their indices.
\<close>

fun ownProps :: "jsval \<Rightarrow> (jsstring \<times> jsval) list" where
  "ownProps (VObj kvs) = kvs"
| "ownProps (VArr xs) = zip (map showNat [0..<length xs]) xs"
| "ownProps _ = []"

definition objectKeys :: "jsval \<Rightarrow> jsstring list" where
  "objectKeys v = map fst (ownProps v)"

definition getProp :: "jsval \<Rightarrow> jsstring \<Rightarrow> jsval option" where
  "getProp v k = map_of (ownProps v) k"

text \<open>\<open>typeof v === 'object'\<close>: true of \<open>null\<close>, arrays and objects.\<close>

fun typeofObject :: "jsval \<Rightarrow> bool" where
  "typeofObject VNull = True"
| "typeofObject (VArr xs) = True"
| "typeofObject (VObj kvs) = True"
| "typeofObject _ = False"

text \<open>Truthiness: \<open>null\<close>, \<open>false\<close>, zero and the empty string are falsy.\<close>

fun truthy :: "jsval \<Rightarrow> bool" where
  "truthy VNull = False"
| "truthy (VBool b) = b"
| "truthy (VNum r) = (r \<noteq> js ''0'')"
| "truthy (VStr s) = (s \<noteq> [])"
| "truthy _ = True"

fun joinWith :: "jsstring \<Rightarrow> jsstring list \<Rightarrow> jsstring" where
  "joinWith sep [] = []"
| "joinWith sep [x] = x"
| "joinWith sep (x # y # ys) = x @ sep @ joinWith sep (y # ys)"

text \<open>
  \<open>String(v)\<close>. An array is its elements joined by commas, \<open>null\<close> elements as
  empty strings; an object is \<open>[object Object]\<close> (one without a key
  \<open>toString\<close>: see above).
\<close>

fun toString :: "jsval \<Rightarrow> jsstring" where
  "toString VNull = js ''null''"
| "toString (VBool b) = (if b then js ''true'' else js ''false'')"
| "toString (VNum r) = r"
| "toString (VStr s) = s"
| "toString (VArr xs) = joinWith (js '','') (map (\<lambda>x. if x = VNull then [] else toString x) xs)"
| "toString (VObj kvs) = js ''[object Object]''"

text \<open>\<open>sanitizeValue\<close>, the same in both intake workers.\<close>

fun sanitizeValue :: "(jsstring \<Rightarrow> jsstring) \<Rightarrow> jsval \<Rightarrow> jsval" where
  "sanitizeValue nfkc VNull = VNull"
| "sanitizeValue nfkc (VStr s) = VStr (sanitizeString nfkc s)"
| "sanitizeValue nfkc (VArr xs) = VArr (map (sanitizeValue nfkc) xs)"
| "sanitizeValue nfkc (VObj kvs) = VObj (map (\<lambda>kv. (fst kv, sanitizeValue nfkc (snd kv))) kvs)"
| "sanitizeValue nfkc v = v"

section \<open>Schema validation\<close>

text \<open>
  A field of a schema. \<open>ftype\<close> is the source's \<open>type\<close>, \<open>fmin\<close> and
  \<open>fmax\<close> its \<open>min\<close> and \<open>max\<close> (\<open>None\<close> where the schema gives none);
  \<open>options\<close> is empty for a field that is not an enumeration.
\<close>

record fieldspec =
  name :: jsstring
  ftype :: jsstring
  required :: bool
  fmin :: "nat option"
  fmax :: "nat option"
  options :: "jsstring list"

text \<open>A schema: \<open>schema_fields\<close> is the source's \<open>schema.fields\<close>.\<close>

record schema =
  schema_fields :: "fieldspec list"

definition interestOptions :: "jsstring list" where
  "interestOptions =
     [js ''Business Operations'', js ''Contact Center'', js ''IT Support'', js ''Professionals'']"

definition CONTACT_SCHEMA :: schema where
  "CONTACT_SCHEMA = \<lparr>schema_fields = [
     \<lparr>name = js ''Name'', ftype = js ''string'', required = True,
      fmin = Some 1, fmax = Some 200, options = []\<rparr>,
     \<lparr>name = js ''Email'', ftype = js ''email'', required = True,
      fmin = None, fmax = None, options = []\<rparr>,
     \<lparr>name = js ''Contact Number'', ftype = js ''phone'', required = False,
      fmin = Some 0, fmax = Some 40, options = []\<rparr>,
     \<lparr>name = js ''Preferred Date'', ftype = js ''date'', required = False,
      fmin = None, fmax = None, options = []\<rparr>,
     \<lparr>name = js ''Preferred Time'', ftype = js ''time'', required = False,
      fmin = None, fmax = None, options = []\<rparr>,
     \<lparr>name = js ''What are you interested in?'', ftype = js ''enum'', required = True,
      fmin = None, fmax = None, options = interestOptions\<rparr>,
     \<lparr>name = js ''Comments'', ftype = js ''string'', required = False,
      fmin = Some 0, fmax = Some 5000, options = []\<rparr>]\<rparr>"

definition JOIN_SCHEMA :: schema where
  "JOIN_SCHEMA = \<lparr>schema_fields = [
     \<lparr>name = js ''Name'', ftype = js ''string'', required = True,
      fmin = Some 1, fmax = Some 200, options = []\<rparr>,
     \<lparr>name = js ''Email'', ftype = js ''email'', required = True,
      fmin = None, fmax = None, options = []\<rparr>,
     \<lparr>name = js ''Phone'', ftype = js ''phone'', required = False,
      fmin = Some 0, fmax = Some 40, options = []\<rparr>,
     \<lparr>name = js ''Skills'', ftype = js ''strArrayCapped'', required = False,
      fmin = None, fmax = None, options = []\<rparr>,
     \<lparr>name = js ''Education'', ftype = js ''strArrayCapped'', required = False,
      fmin = None, fmax = None, options = []\<rparr>,
     \<lparr>name = js ''Certification'', ftype = js ''strArrayCapped'', required = False,
      fmin = None, fmax = None, options = []\<rparr>,
     \<lparr>name = js ''Hobbies'', ftype = js ''strArrayCapped'', required = False,
      fmin = None, fmax = None, options = []\<rparr>,
     \<lparr>name = js ''What are you interested in?'', ftype = js ''enum'', required = True,
      fmin = None, fmax = None, options = interestOptions\<rparr>,
     \<lparr>name = js ''Continued Education'', ftype = js ''strArrayCapped'', required = False,
      fmin = None, fmax = None, options = []\<rparr>,
     \<lparr>name = js ''Experience'', ftype = js ''strArrayCapped'', required = False,
      fmin = None, fmax = None, options = []\<rparr>,
     \<lparr>name = js ''Tell us about yourself'', ftype = js ''string'', required = False,
      fmin = Some 0, fmax = Some 5000, options = []\<rparr>]\<rparr>"

text \<open>
  A thrown \<open>Error\<close> is its message: a validator returns \<open>Inl message\<close> where the
  source throws, and \<open>Inr\<close> of its result otherwise.
\<close>

type_synonym error = jsstring

text \<open>The validators \<open>mustStr\<close>, \<open>mustEmail\<close>, ... of the source.\<close>

definition mustStr ::
  "(jsstring \<Rightarrow> jsstring) \<Rightarrow> jsval \<Rightarrow> nat \<Rightarrow> nat \<Rightarrow> jsstring \<Rightarrow> error + jsstring" where
  "mustStr nfkc v lo hi field =
     (case v of
        VStr s \<Rightarrow>
          (let t = sanitizeString nfkc s
           in if length t < lo then Inl (field @ js '' too short'')
              else if length t > hi then Inl (field @ js '' too long'')
              else Inr t)
      | _ \<Rightarrow> Inl (js ''invalid '' @ field))"

text \<open>
  \<open>/^[^\s@]+@[^\s@]+\.[^\s@]+$/\<close>: the string is \<open>L@D.T\<close> with \<open>L\<close>, \<open>D\<close>
  and \<open>T\<close> not empty and free of white space and \<open>@\<close>. So the string has no white
  space and exactly one \<open>@\<close>, something stands before it, and behind it there is a dot
  that is neither first nor last (\<open>D\<close> and \<open>T\<close> may hold further dots).
\<close>

definition emailShape :: "jsstring \<Rightarrow> bool" where
  "emailShape s \<longleftrightarrow>
     (let l = takeWhile (\<lambda>c. c \<noteq> 0x40) s;
          r = drop (length l + 1) s
      in list_all (\<lambda>c. \<not> isSpace c) s \<and> l \<noteq> [] \<and> length l < length s \<and>
         0x40 \<notin> set r \<and> 0x2E \<in> set (butlast (tl r)))"

definition mustEmail :: "(jsstring \<Rightarrow> jsstring) \<Rightarrow> jsval \<Rightarrow> jsstring \<Rightarrow> error + jsstring" where
  "mustEmail nfkc v field =
     (case mustStr nfkc (VStr (toString v)) 3 254 field of
        Inl e \<Rightarrow> Inl e
      | Inr s \<Rightarrow> if \<not> emailShape s then Inl (js ''invalid '' @ field) else Inr s)"

text \<open>\<open>/^[+()\-\d\s\.]{4,}$/\<close>: four or more code units of the class.\<close>

definition isPhoneChar :: "codeunit \<Rightarrow> bool" where
  "isPhoneChar c \<longleftrightarrow>
     c = 0x2B \<or> c = 0x28 \<or> c = 0x29 \<or> c = 0x2D \<or> isDigit c \<or> isSpace c \<or> c = 0x2E"

definition phoneShape :: "jsstring \<Rightarrow> bool" where
  "phoneShape s \<longleftrightarrow> 4 \<le> length s \<and> list_all isPhoneChar s"

definition mustPhone ::
  "(jsstring \<Rightarrow> jsstring) \<Rightarrow> jsval \<Rightarrow> jsstring \<Rightarrow> nat \<Rightarrow> error + jsstring" where
  "mustPhone nfkc v field hi =
     (case mustStr nfkc (VStr (toString v)) 0 hi field of
        Inl e \<Rightarrow> Inl e
      | Inr s \<Rightarrow> if s \<noteq> [] \<and> \<not> phoneShape s then Inl (js ''invalid '' @ field) else Inr s)"

text \<open>\<open>/^\d{4}-\d{2}-\d{2}$/\<close> and \<open>/^\d{2}:\d{2}$/\<close>.\<close>

definition dateShape :: "jsstring \<Rightarrow> bool" where
  "dateShape s \<longleftrightarrow>
     length s = 10 \<and> list_all isDigit (take 4 s) \<and> s ! 4 = 0x2D \<and>
     list_all isDigit (take 2 (drop 5 s)) \<and> s ! 7 = 0x2D \<and> list_all isDigit (drop 8 s)"

definition timeShape :: "jsstring \<Rightarrow> bool" where
  "timeShape s \<longleftrightarrow>
     length s = 5 \<and> list_all isDigit (take 2 s) \<and> s ! 2 = 0x3A \<and> list_all isDigit (drop 3 s)"

definition mustDate :: "(jsstring \<Rightarrow> jsstring) \<Rightarrow> jsval \<Rightarrow> jsstring \<Rightarrow> error + jsstring" where
  "mustDate nfkc v field =
     (case mustStr nfkc (VStr (toString v)) 0 20 field of
        Inl e \<Rightarrow> Inl e
      | Inr s \<Rightarrow>
          if s = [] then Inr []
          else if \<not> dateShape s then Inl (js ''invalid '' @ field)
          else Inr s)"

definition mustTime :: "(jsstring \<Rightarrow> jsstring) \<Rightarrow> jsval \<Rightarrow> jsstring \<Rightarrow> error + jsstring" where
  "mustTime nfkc v field =
     (case mustStr nfkc (VStr (toString v)) 0 20 field of
        Inl e \<Rightarrow> Inl e
      | Inr s \<Rightarrow>
          if s = [] then Inr []
          else if \<not> timeShape s then Inl (js ''invalid '' @ field)
          else Inr s)"

definition mustEnum ::
  "(jsstring \<Rightarrow> jsstring) \<Rightarrow> jsval \<Rightarrow> jsstring list \<Rightarrow> jsstring \<Rightarrow> error + jsstring" where
  "mustEnum nfkc v opts field =
     (case mustStr nfkc (VStr (toString v)) 1 200 field of
        Inl e \<Rightarrow> Inl e
      | Inr s \<Rightarrow> if s \<notin> set opts then Inl (js ''invalid '' @ field) else Inr s)"

text \<open>
  The callback of \<open>v.map\<close> in \<open>strArrayCapped\<close>, item by item from index \<open>i\<close>;
  \<open>tot\<close> is the closure's running byte count, the source's \<open>total\<close>.
\<close>

fun strArrayItems ::
  "(jsstring \<Rightarrow> jsstring) \<Rightarrow> jsstring \<Rightarrow> nat \<Rightarrow> nat \<Rightarrow> nat \<Rightarrow> nat \<Rightarrow> jsval list \<Rightarrow>
   error + jsstring list" where
  "strArrayItems nfkc field maxItemBytes maxTotalBytes i tot [] = Inr []"
| "strArrayItems nfkc field maxItemBytes maxTotalBytes i tot (x # xs) =
     (case mustStr nfkc (VStr (toString x)) 0 maxItemBytes
             (field @ js ''['' @ showNat i @ js '']'') of
        Inl e \<Rightarrow> Inl e
      | Inr s \<Rightarrow>
          (let n = utf8Length s
           in if n > maxItemBytes
              then Inl (field @ js ''['' @ showNat i @ js '']'' @ js '' too large'')
              else if tot + n > maxTotalBytes
              then Inl (field @ js '' total size too large'')
              else (case strArrayItems nfkc field maxItemBytes maxTotalBytes (i + 1) (tot + n) xs of
                      Inl e \<Rightarrow> Inl e
                    | Inr r \<Rightarrow> Inr (s # r))))"

text \<open>\<open>strArrayCapped(v, field, {maxItems, maxItemBytes, maxTotalBytes})\<close>.\<close>

definition strArrayCappedWith ::
  "nat \<Rightarrow> nat \<Rightarrow> nat \<Rightarrow> (jsstring \<Rightarrow> jsstring) \<Rightarrow> jsval \<Rightarrow> jsstring \<Rightarrow> error + jsval" where
  "strArrayCappedWith maxItems maxItemBytes maxTotalBytes nfkc v field =
     (if \<not> truthy v then Inr (VArr [])
      else (case v of
              VArr xs \<Rightarrow>
                if length xs > maxItems then Inl (field @ js '' has too many items'')
                else (case strArrayItems nfkc field maxItemBytes maxTotalBytes 0 0 xs of
                        Inl e \<Rightarrow> Inl e
                      | Inr r \<Rightarrow> Inr (VArr (map VStr r)))
            | _ \<Rightarrow> Inl (js ''invalid '' @ field)))"

text \<open>The source's defaults: \<open>maxItems = 50, maxItemBytes = 5000, maxTotalBytes = 20000\<close>.\<close>

definition strArrayCapped :: "(jsstring \<Rightarrow> jsstring) \<Rightarrow> jsval \<Rightarrow> jsstring \<Rightarrow> error + jsval" where
  "strArrayCapped = strArrayCappedWith 50 5000 20000"

text \<open>
  The contact intake and the join intake are two files with the same code but for the
  form's name, the schema, the default asset identifier, the cases of the type switch
  in \<open>validateAgainstSchema\<close>, and the functions \<open>strArrayCapped\<close> and
  \<open>enforceByteLimits\<close>, which the join intake alone defines; \<open>worker\<close> says whose
  copy is meant.
\<close>

datatype worker = ContactIntake | JoinIntake

fun formOf :: "worker \<Rightarrow> jsstring" where
  "formOf ContactIntake = js ''contact''"
| "formOf JoinIntake = js ''join''"

fun schemaOf :: "worker \<Rightarrow> schema" where
  "schemaOf ContactIntake = CONTACT_SCHEMA"
| "schemaOf JoinIntake = JOIN_SCHEMA"

text \<open>\<open>f.min || 0\<close>, \<open>f.max || 5000\<close>: the default stands in for a missing value and for zero.\<close>

definition orNat :: "nat option \<Rightarrow> nat \<Rightarrow> nat" where
  "orNat x d = (case x of None \<Rightarrow> d | Some n \<Rightarrow> if n = 0 then d else n)"

text \<open>The \<open>switch (f.type)\<close> of each worker.\<close>

fun convertField :: "worker \<Rightarrow> (jsstring \<Rightarrow> jsstring) \<Rightarrow> fieldspec \<Rightarrow> jsval \<Rightarrow> error + jsval" where
  "convertField ContactIntake nfkc f v =
     (if ftype f = js ''string'' then map_sum id VStr (mustStr nfkc v (orNat (fmin f) 0) (orNat (fmax f) 5000) (name f))
      else if ftype f = js ''email'' then map_sum id VStr (mustEmail nfkc v (name f))
      else if ftype f = js ''phone'' then map_sum id VStr (mustPhone nfkc v (name f) (orNat (fmax f) 40))
      else if ftype f = js ''date'' then map_sum id VStr (mustDate nfkc v (name f))
      else if ftype f = js ''time'' then map_sum id VStr (mustTime nfkc v (name f))
      else if ftype f = js ''enum'' then map_sum id VStr (mustEnum nfkc v (options f) (name f))
      else Inl (js ''unknown type: '' @ ftype f))"
| "convertField JoinIntake nfkc f v =
     (if ftype f = js ''string'' then map_sum id VStr (mustStr nfkc v (orNat (fmin f) 0) (orNat (fmax f) 5000) (name f))
      else if ftype f = js ''email'' then map_sum id VStr (mustEmail nfkc v (name f))
      else if ftype f = js ''phone'' then map_sum id VStr (mustPhone nfkc v (name f) (orNat (fmax f) 40))
      else if ftype f = js ''enum'' then map_sum id VStr (mustEnum nfkc v (options f) (name f))
      else if ftype f = js ''strArrayCapped'' then strArrayCapped nfkc v (name f)
      else Inl (js ''unknown type: '' @ ftype f))"

text \<open>\<open>v === undefined || v === null || v === ''\<close>.\<close>

definition isMissing :: "jsval option \<Rightarrow> bool" where
  "isMissing v \<longleftrightarrow> v = None \<or> v = Some VNull \<or> v = Some (VStr [])"

text \<open>
  The loop over \<open>schema.fields\<close>; \<open>out\<close> is the object built so far, and
  \<open>out[f.name] = x\<close> sets the property in place or appends it.
\<close>

fun validateFields ::
  "worker \<Rightarrow> (jsstring \<Rightarrow> jsstring) \<Rightarrow> fieldspec list \<Rightarrow> jsval \<Rightarrow> (jsstring \<times> jsval) list \<Rightarrow>
   error + (jsstring \<times> jsval) list" where
  "validateFields w nfkc [] input out = Inr out"
| "validateFields w nfkc (f # fs) input out =
     (let v = getProp input (name f)
      in if required f \<and> isMissing v then Inl (js ''missing: '' @ name f)
         else if isMissing v
         then validateFields w nfkc fs input
                (AList.update (name f) (if ftype f = js ''strArrayCapped'' then VArr [] else VStr []) out)
         else (case convertField w nfkc f (the v) of
                 Inl e \<Rightarrow> Inl e
               | Inr x \<Rightarrow> validateFields w nfkc fs input (AList.update (name f) x out)))"

text \<open>The first loop: the first key of the input that the schema does not declare.\<close>

definition unexpectedField :: "schema \<Rightarrow> jsval \<Rightarrow> jsstring option" where
  "unexpectedField sch input =
     find (\<lambda>k. k \<notin> set (map name (schema_fields sch))) (objectKeys input)"

definition validateAgainstSchema ::
  "worker \<Rightarrow> (jsstring \<Rightarrow> jsstring) \<Rightarrow> jsstring \<Rightarrow> schema \<Rightarrow> jsval \<Rightarrow>
   error + (jsstring \<times> jsval) list" where
  "validateAgainstSchema w nfkc formName sch input =
     (if formName \<noteq> formOf w then Inl (js ''wrong_form'')
      else (case unexpectedField sch input of
              Some k \<Rightarrow> Inl (js ''unexpected field: '' @ k)
            | None \<Rightarrow> validateFields w nfkc (schema_fields sch) input []))"

text \<open>
  \<open>enforceByteLimits\<close> of the join intake: \<open>walk\<close> returns the error thrown at
  the first string that is too long, if there is one.
\<close>

fun walk :: "int \<Rightarrow> jsval \<Rightarrow> error option"
  and walkAll :: "int \<Rightarrow> jsval list \<Rightarrow> error option" where
  "walk maxBytesPerField (VStr s) =
     (if int (utf8Length s) > maxBytesPerField
      then Some (js ''field exceeds '' @ showInt maxBytesPerField @ js '' bytes'')
      else None)"
| "walk maxBytesPerField (VArr xs) = walkAll maxBytesPerField xs"
| "walk maxBytesPerField (VObj kvs) = walkAll maxBytesPerField (map snd kvs)"
| "walk maxBytesPerField v = None"
| "walkAll maxBytesPerField [] = None"
| "walkAll maxBytesPerField (x # xs) =
     (case walk maxBytesPerField x of
        Some e \<Rightarrow> Some e
      | None \<Rightarrow> walkAll maxBytesPerField xs)"

definition enforceByteLimits :: "jsval \<Rightarrow> int \<Rightarrow> error option" where
  "enforceByteLimits obj maxBytesPerField = walk maxBytesPerField obj"

section \<open>Requests, responses and the environment\<close>

text \<open>
  What a worker reads of a request: the method, \<open>new URL(request.url).pathname\<close>,
  the \<open>Origin\<close> and \<open>Authorization\<close> headers as \<open>headers.get\<close> returns them
  (\<open>None\<close> for \<open>null\<close>), and the body as \<open>request.text()\<close> returns it
  (\<open>None\<close> where reading throws).
\<close>

record request =
  httpMethod :: jsstring
  pathname :: jsstring
  originHeader :: "jsstring option"
  authorizationHeader :: "jsstring option"
  bodyText :: "jsstring option"

text \<open>
  A response: the status, the headers and the value whose \<open>JSON.stringify\<close> is the
  body (\<open>None\<close> for a response without body).
\<close>

record response =
  status :: nat
  headers :: "(jsstring \<times> jsstring) list"
  body :: "jsval option"

text \<open>What an outbound \<open>fetch\<close> does: it throws, or it returns a response with a status.\<close>

datatype outcome = Threw | Responded nat

text \<open>
  The environment of a worker. A variable that is not set is \<open>None\<close>. \<open>TRANSIT\<close>
  is \<open>Some f\<close> for a service binding with a \<open>fetch\<close> function, \<open>f\<close> telling what
  the binding does with the envelope posted to it.
\<close>

record env =
  ALLOWED_ORIGINS :: "jsstring option"
  MAX_BODY_BYTES :: "jsstring option"
  MAX_FIELD_BYTES :: "jsstring option"
  ASSET_ID :: "jsstring option"
  TRANSIT :: "(jsval \<Rightarrow> outcome) option"
  TRANSIT_URL :: "jsstring option"
  API_TOKEN :: "jsstring option"

text \<open>
  The built-ins whose results the repository does not determine: \<open>normalize('NFKC')\<close>
  on strings that are not ASCII, \<open>JSON.parse\<close> (\<open>None\<close> where it throws),
  \<open>new Date().toISOString()\<close>, the global \<open>fetch\<close> of the envelope to
  \<open>new URL('/core', base)\<close> (\<open>Threw\<close> also where the URL cannot be built),
  and the message of the \<open>ReferenceError\<close> that the engine throws for a name that
  is not defined (V8: \<open><name> is not defined\<close>).
\<close>

record platform =
  nfkc :: "jsstring \<Rightarrow> jsstring"
  jsonParse :: "jsstring \<Rightarrow> jsval option"
  now :: jsstring
  fetchUrl :: "jsstring \<Rightarrow> jsval \<Rightarrow> outcome"
  notDefinedMessage :: "jsstring \<Rightarrow> jsstring"

text \<open>\<open>x || d\<close> for a string or \<open>undefined\<close>: \<open>d\<close> stands in for the empty string too.\<close>

definition orStr :: "jsstring option \<Rightarrow> jsstring \<Rightarrow> jsstring" where
  "orStr x d = (case x of None \<Rightarrow> d | Some s \<Rightarrow> if s = [] then d else s)"

text \<open>
  \<open>json(body, status, headers)\<close>: the given headers, then \<open>content-type\<close> and
  \<open>cache-control\<close>.
\<close>

definition json :: "jsval \<Rightarrow> nat \<Rightarrow> (jsstring \<times> jsstring) list \<Rightarrow> response" where
  "json b st hs =
     \<lparr>status = st,
      headers = AList.update (js ''cache-control'') (js ''no-store'')
                  (AList.update (js ''content-type'') (js ''application/json'') hs),
      body = Some b\<rparr>"

text \<open>
  \<open>new Response(body, {status})\<close> throws a \<open>RangeError\<close> for a status outside
  200 to 599, and a \<open>TypeError\<close> for a body together with a null body status (101,
  103, 204, 205, 304). \<open>acceptsBody\<close> holds of the statuses with which \<open>json\<close>
  returns. Every call of \<open>json\<close> in the workers passes a constant status that it
  holds of (200, 202, 400, 401, 403, 404, 413, 500), but for the reply to a response of
  the transit, whose status is the transit's.
\<close>

definition acceptsBody :: "nat \<Rightarrow> bool" where
  "acceptsBody st \<longleftrightarrow> 200 \<le> st \<and> st \<le> 599 \<and> st \<noteq> 204 \<and> st \<noteq> 205 \<and> st \<noteq> 304"

text \<open>\<open>s.split(',')\<close>.\<close>

fun splitComma :: "jsstring \<Rightarrow> jsstring list" where
  "splitComma [] = [[]]"
| "splitComma (c # cs) =
     (if c = 0x2C then [] # splitComma cs
      else (case splitComma cs of
              [] \<Rightarrow> [[c]]
            | x # xs \<Rightarrow> (c # x) # xs))"

text \<open>\<open>isAllowedOrigin\<close>: the origin is not empty and is an entry of the trimmed list.\<close>

definition isAllowedOrigin :: "env \<Rightarrow> jsstring \<Rightarrow> bool" where
  "isAllowedOrigin e origin \<longleftrightarrow>
     (let list = filter (\<lambda>s. s \<noteq> []) (map trim (splitComma (orStr (ALLOWED_ORIGINS e) [])))
      in origin \<noteq> [] \<and> origin \<in> set list)"

text \<open>
  \<open>cors\<close>; the workers' copies differ in the value of
  \<open>Access-Control-Allow-Headers\<close> only, here \<open>allowHeaders\<close>.
\<close>

definition cors :: "jsstring \<Rightarrow> env \<Rightarrow> jsstring \<Rightarrow> (jsstring \<times> jsstring) list" where
  "cors allowHeaders e origin =
     (let h = [(js ''X-Content-Type-Options'', js ''nosniff''),
               (js ''X-Frame-Options'', js ''DENY''),
               (js ''Referrer-Policy'', js ''no-referrer''),
               (js ''Permissions-Policy'', js ''geolocation=(), microphone=(), camera=()'')]
      in if isAllowedOrigin e origin
         then h @ [(js ''Access-Control-Allow-Origin'', origin),
                   (js ''Vary'', js ''Origin''),
                   (js ''Access-Control-Allow-Methods'', js ''POST, OPTIONS, GET''),
                   (js ''Access-Control-Allow-Headers'', allowHeaders)]
         else h)"

text \<open>
  \<open>parseInt(s, 10)\<close>: leading white space is skipped, a sign may follow, then the
  longest run of decimal digits is read; \<open>None\<close> is \<open>NaN\<close>. Numbers are integers
  here: the rounding of \<open>parseInt\<close> from \<open>2^53\<close> on is not modelled (it changes no
  comparison with a byte count, which is far smaller).
\<close>

definition digitsValue :: "jsstring \<Rightarrow> nat" where
  "digitsValue ds = foldl (\<lambda>a c. 10 * a + unat (c - 0x30)) 0 ds"

definition parseInt10 :: "jsstring \<Rightarrow> int option" where
  "parseInt10 s =
     (let t = dropWhile isSpace s;
          neg = (t \<noteq> [] \<and> hd t = 0x2D);
          r = (if t \<noteq> [] \<and> (hd t = 0x2D \<or> hd t = 0x2B) then tl t else t);
          ds = takeWhile isDigit r
      in if ds = [] then None
         else Some (if neg then - int (digitsValue ds) else int (digitsValue ds)))"

text \<open>\<open>toInt\<close>: \<open>parseInt(String(s), 10) || 0\<close>.\<close>

definition toInt :: "jsstring \<Rightarrow> int" where
  "toInt s = (case parseInt10 s of None \<Rightarrow> 0 | Some n \<Rightarrow> n)"

text \<open>\<open>byteLen\<close>: \<open>new TextEncoder().encode(String(s || '')).length\<close>.\<close>

definition byteLen :: "jsstring \<Rightarrow> nat" where
  "byteLen s = utf8Length s"

text \<open>The body \<open>{error: code}\<close>.\<close>

definition errorBody :: "string \<Rightarrow> jsval" where
  "errorBody code = VObj [(js ''error'', VStr (js code))]"

section \<open>Intake workers\<close>

fun defaultAsset :: "worker \<Rightarrow> jsstring" where
  "defaultAsset ContactIntake = js ''ops-contact-intake''"
| "defaultAsset JoinIntake = js ''ops-join-intake''"

fun ingressPath :: "worker \<Rightarrow> jsstring" where
  "ingressPath ContactIntake = js ''/ingress/contact''"
| "ingressPath JoinIntake = js ''/ingress/join''"

text \<open>
  What the \<open>catch\<close> of the first \<open>try\<close> block may receive: an \<open>Error\<close> that a
  validator throws, or the \<open>ReferenceError\<close> of the engine, each with its message.
\<close>

datatype thrown = Error error | ReferenceError jsstring

text \<open>
  The first \<open>try\<close> block of the ingress branch: sanitise, validate, enforce the byte
  limit of a field. \<open>Inl\<close> is what the \<open>catch\<close> receives. The join intake defines
  \<open>enforceByteLimits\<close>. The contact intake calls it and does not define it: there the
  call throws a \<open>ReferenceError\<close> whenever \<open>validateAgainstSchema\<close> has returned.
\<close>

definition validateShape :: "worker \<Rightarrow> platform \<Rightarrow> env \<Rightarrow> jsval \<Rightarrow> thrown + (jsstring \<times> jsval) list" where
  "validateShape w p e shape =
     (case validateAgainstSchema w (nfkc p) (formOf w) (schemaOf w) (sanitizeValue (nfkc p) shape) of
        Inl m \<Rightarrow> Inl (Error m)
      | Inr flds \<Rightarrow>
          (case w of
             ContactIntake \<Rightarrow> Inl (ReferenceError (notDefinedMessage p (js ''enforceByteLimits'')))
           | JoinIntake \<Rightarrow>
               (case enforceByteLimits (VObj flds) (toInt (orStr (MAX_FIELD_BYTES e) (js ''5000''))) of
                  Some m \<Rightarrow> Inl (Error m)
                | None \<Rightarrow> Inr flds)))"

text \<open>
  \<open>String(e.message || e)\<close>: an error with an empty message prints as its name.
\<close>

fun errorText :: "thrown \<Rightarrow> jsstring" where
  "errorText (Error m) = (if m = [] then js ''Error'' else m)"
| "errorText (ReferenceError m) = (if m = [] then js ''ReferenceError'' else m)"

text \<open>
  What the worker answers to a response of the transit; \<open>r.ok\<close> is a status from 200
  to 299. \<open>None\<close> where \<open>json\<close> throws.
\<close>

definition relay :: "nat \<Rightarrow> (jsstring \<times> jsstring) list \<Rightarrow> response option" where
  "relay st corsHeaders =
     (if 200 \<le> st \<and> st \<le> 299
      then Some (json (VObj [(js ''status'', VStr (js ''accepted_by_transit''))]) 202 corsHeaders)
      else if acceptsBody st
      then Some (json (VObj [(js ''status'', VStr (js ''transit_rejected'')),
                             (js ''code'', VNum (showNat st))]) st corsHeaders)
      else None)"

text \<open>The last \<open>return\<close> of the ingress branch.\<close>

definition validatedOnly :: "(jsstring \<times> jsstring) list \<Rightarrow> response" where
  "validatedOnly corsHeaders =
     json (VObj [(js ''status'', VStr (js ''validated_only'')),
                 (js ''message'', VStr (js ''Transit not configured''))]) 200 corsHeaders"

text \<open>The envelope built from the validated fields.\<close>

definition envelopeOf :: "worker \<Rightarrow> platform \<Rightarrow> env \<Rightarrow> (jsstring \<times> jsval) list \<Rightarrow> jsval" where
  "envelopeOf w p e flds =
     VObj [(js ''schema'', VStr (js ''ops.v1'')),
           (js ''submitted_at'', VStr (now p)),
           (js ''asset_id'', VStr (orStr (ASSET_ID e) (defaultAsset w))),
           (js ''form'', VStr (formOf w)),
           (js ''fields'', VObj flds)]"

text \<open>
  The second \<open>try\<close> block: the service binding first, then the URL. Whatever throws
  inside the block, the call or the construction of the reply, is caught, and the worker
  falls through to \<open>validated_only\<close>.
\<close>

definition forward ::
  "worker \<Rightarrow> platform \<Rightarrow> env \<Rightarrow> (jsstring \<times> jsval) list \<Rightarrow> (jsstring \<times> jsstring) list \<Rightarrow> response" where
  "forward w p e flds corsHeaders =
     (let envelope = envelopeOf w p e flds
      in case TRANSIT e of
           Some f \<Rightarrow>
             (case f envelope of
                Threw \<Rightarrow> validatedOnly corsHeaders
              | Responded st \<Rightarrow>
                  (case relay st corsHeaders of
                     None \<Rightarrow> validatedOnly corsHeaders
                   | Some r \<Rightarrow> r))
         | None \<Rightarrow>
             if orStr (TRANSIT_URL e) [] \<noteq> []
             then (case fetchUrl p (orStr (TRANSIT_URL e) []) envelope of
                     Threw \<Rightarrow> validatedOnly corsHeaders
                   | Responded st \<Rightarrow>
                       (case relay st corsHeaders of
                          None \<Rightarrow> validatedOnly corsHeaders
                        | Some r \<Rightarrow> r))
             else validatedOnly corsHeaders)"

text \<open>
  \<open>shape\<close>: the \<open>fields\<close> of an input that has a property \<open>form\<close>, else the input
  itself; and the test \<open>!shape || typeof shape !== 'object'\<close>.
\<close>

definition shapeOf :: "jsval \<Rightarrow> jsval option" where
  "shapeOf input =
     (if truthy input \<and> typeofObject input \<and> getProp input (js ''form'') \<noteq> None
      then getProp input (js ''fields'')
      else Some input)"

definition invalidShape :: "jsval option \<Rightarrow> bool" where
  "invalidShape shape \<longleftrightarrow>
     (case shape of None \<Rightarrow> True | Some s \<Rightarrow> \<not> truthy s \<or> \<not> typeofObject s)"

text \<open>The branch \<open>POST /ingress/<form>\<close>.\<close>

definition ingress ::
  "worker \<Rightarrow> platform \<Rightarrow> env \<Rightarrow> request \<Rightarrow> jsstring \<Rightarrow> (jsstring \<times> jsstring) list \<Rightarrow> response" where
  "ingress w p e req origin corsHeaders =
     (if \<not> isAllowedOrigin e origin then json (errorBody ''forbidden_origin'') 403 corsHeaders
      else (case bodyText req of
              None \<Rightarrow> json (errorBody ''read_error'') 400 corsHeaders
            | Some txt \<Rightarrow>
                if int (byteLen txt) > toInt (orStr (MAX_BODY_BYTES e) (js ''256000''))
                then json (errorBody ''payload_too_large'') 413 corsHeaders
                else (case jsonParse p (if txt = [] then js ''{}'' else txt) of
                        None \<Rightarrow> json (errorBody ''invalid_json'') 400 corsHeaders
                      | Some input \<Rightarrow>
                          (let shape = shapeOf input
                           in if invalidShape shape
                              then json (errorBody ''invalid_payload'') 400 corsHeaders
                              else (case validateShape w p e (the shape) of
                                      Inl m \<Rightarrow>
                                        json (VObj [(js ''error'', VStr (js ''validation_error'')),
                                                    (js ''message'', VStr (errorText m))])
                                          400 corsHeaders
                                    | Inr flds \<Rightarrow> forward w p e flds corsHeaders)))))"

text \<open>The answers to \<open>OPTIONS\<close> and to \<open>GET /.well-known/health\<close>.\<close>

definition preflight :: "(jsstring \<times> jsstring) list \<Rightarrow> response" where
  "preflight corsHeaders =
     \<lparr>status = 204,
      headers = AList.update (js ''Access-Control-Max-Age'') (js ''600'') corsHeaders,
      body = None\<rparr>"

definition health :: "env \<Rightarrow> jsstring \<Rightarrow> (jsstring \<times> jsstring) list \<Rightarrow> response" where
  "health e service corsHeaders =
     json (VObj [(js ''ok'', VBool True),
                 (js ''service'', VStr (orStr (ASSET_ID e) service)),
                 (js ''version'', VStr (js ''0.1.0''))]) 200 corsHeaders"

text \<open>\<open>fetch\<close> of an intake worker.\<close>

definition intakeFetch :: "worker \<Rightarrow> platform \<Rightarrow> env \<Rightarrow> request \<Rightarrow> response" where
  "intakeFetch w p e req =
     (let origin = orStr (originHeader req) [];
          corsHeaders = cors (js ''content-type'') e origin
      in if httpMethod req = js ''OPTIONS'' then preflight corsHeaders
         else if httpMethod req = js ''GET'' \<and> pathname req = js ''/.well-known/health''
         then health e (defaultAsset w) corsHeaders
         else if httpMethod req = js ''POST'' \<and> pathname req = ingressPath w
         then ingress w p e req origin corsHeaders
         else json (errorBody ''not_found'') 404 corsHeaders)"

section \<open>Transit broker\<close>

text \<open>\<open>fetch\<close> of \<open>worker-transit.js\<close>.\<close>

definition transitCore :: "platform \<Rightarrow> request \<Rightarrow> (jsstring \<times> jsstring) list \<Rightarrow> response" where
  "transitCore p req corsHeaders =
     (case bodyText req of
        None \<Rightarrow> json (errorBody ''read_error'') 400 corsHeaders
      | Some txt \<Rightarrow>
          (case jsonParse p (if txt = [] then js ''{}'' else txt) of
             None \<Rightarrow> json (errorBody ''invalid_json'') 400 corsHeaders
           | Some input \<Rightarrow>
               if \<not> truthy input \<or> \<not> typeofObject input
               then json (errorBody ''invalid_payload'') 400 corsHeaders
               else (case getProp input (js ''form'') of
                       None \<Rightarrow> json (errorBody ''unknown_form'') 400 corsHeaders
                     | Some form \<Rightarrow>
                         if \<not> truthy form \<or>
                            (form \<noteq> VStr (js ''contact'') \<and> form \<noteq> VStr (js ''join''))
                         then json (errorBody ''unknown_form'') 400 corsHeaders
                         else json (VObj [(js ''status'', VStr (js ''ack'')),
                                          (js ''form'', form),
                                          (js ''received_at'', VStr (now p))]) 202 corsHeaders)))"

definition transitFetch :: "platform \<Rightarrow> env \<Rightarrow> request \<Rightarrow> response" where
  "transitFetch p e req =
     (let origin = orStr (originHeader req) [];
          corsHeaders = cors (js ''content-type, x-asset-id'') e origin
      in if httpMethod req = js ''OPTIONS'' then preflight corsHeaders
         else if httpMethod req = js ''GET'' \<and> pathname req = js ''/.well-known/health''
         then health e (js ''ops-transit-broker'') corsHeaders
         else if httpMethod req = js ''POST'' \<and> pathname req = js ''/core''
         then transitCore p req corsHeaders
         else json (errorBody ''not_found'') 404 corsHeaders)"

section \<open>Sheet logger\<close>

text \<open>
  The sheet logger calls out twice: the token exchange of \<open>getAccessToken\<close> and the
  append of \<open>appendToSheet\<close>. A run returns, beside its result, the calls it made.
  \<open>sheets\<close> tells what the outside does: whether importing the key and signing the
  assertion succeed, what the token endpoint answers and whether \<open>res.json()\<close> of
  its answer is read (\<open>None\<close> where it throws), and what the spreadsheet endpoint
  answers.
\<close>

datatype effect = TokenExchange | SheetAppend

record sheets =
  signs :: bool
  tokenFetch :: outcome
  tokenJson :: "jsval option"
  appendFetch :: outcome

text \<open>\<open>getAccessToken\<close>: \<open>Inl\<close> where it throws, else the \<open>access_token\<close> read.\<close>

definition getAccessToken :: "sheets \<Rightarrow> (unit + jsval option) \<times> effect list" where
  "getAccessToken sh =
     (if \<not> signs sh then (Inl (), [])
      else (case tokenFetch sh of
              Threw \<Rightarrow> (Inl (), [TokenExchange])
            | Responded st \<Rightarrow>
                (case tokenJson sh of
                   None \<Rightarrow> (Inl (), [TokenExchange])
                 | Some jsonResp \<Rightarrow>
                     if \<not> (200 \<le> st \<and> st \<le> 299) then (Inl (), [TokenExchange])
                     else (Inr (getProp jsonResp (js ''access_token'')), [TokenExchange]))))"

text \<open>\<open>appendToSheet\<close>: whether it returns (\<open>True\<close>) or throws.\<close>

definition appendToSheet :: "sheets \<Rightarrow> bool \<times> effect list" where
  "appendToSheet sh =
     (case getAccessToken sh of
        (Inl u, effs) \<Rightarrow> (False, effs)
      | (Inr token, effs) \<Rightarrow>
          (case appendFetch sh of
             Threw \<Rightarrow> (False, effs @ [SheetAppend])
           | Responded st \<Rightarrow> (200 \<le> st \<and> st \<le> 299, effs @ [SheetAppend])))"

text \<open>The branch \<open>POST /log\<close>; the template \<open>Bearer ${env.API_TOKEN}\<close> prints an unset token as \<open>undefined\<close>.\<close>

definition expectedAuth :: "env \<Rightarrow> jsstring" where
  "expectedAuth e = js ''Bearer '' @ (case API_TOKEN e of None \<Rightarrow> js ''undefined'' | Some t \<Rightarrow> t)"

definition logBranch ::
  "platform \<Rightarrow> sheets \<Rightarrow> env \<Rightarrow> request \<Rightarrow> (jsstring \<times> jsstring) list \<Rightarrow> response \<times> effect list" where
  "logBranch p sh e req corsHeaders =
     (let auth = orStr (authorizationHeader req) []
      in if auth \<noteq> expectedAuth e then (json (errorBody ''unauthorized'') 401 corsHeaders, [])
         else (case (case bodyText req of None \<Rightarrow> None | Some txt \<Rightarrow> jsonParse p txt) of
                 None \<Rightarrow> (json (errorBody ''bad_json'') 400 corsHeaders, [])
               | Some payload \<Rightarrow>
                   (case appendToSheet sh of
                      (True, effs) \<Rightarrow> (json (VObj [(js ''ok'', VBool True)]) 200 corsHeaders, effs)
                    | (False, effs) \<Rightarrow> (json (errorBody ''sheet_error'') 500 corsHeaders, effs))))"

text \<open>\<open>fetch\<close> of the sheet logger.\<close>

definition sheetFetch :: "platform \<Rightarrow> sheets \<Rightarrow> env \<Rightarrow> request \<Rightarrow> response \<times> effect list" where
  "sheetFetch p sh e req =
     (let origin = orStr (originHeader req) [];
          corsHeaders = cors (js ''content-type, authorization'') e origin
      in if httpMethod req = js ''OPTIONS'' then (preflight corsHeaders, [])
         else if httpMethod req = js ''GET'' \<and> pathname req = js ''/.well-known/health''
         then (health e (js ''ops-sheet-logger'') corsHeaders, [])
         else if httpMethod req = js ''POST'' \<and> pathname req = js ''/log''
         then logBranch p sh e req corsHeaders
         else (json (errorBody ''not_found'') 404 corsHeaders, []))"

section \<open>Predicates used in the properties\<close>

text \<open>
  No \<open>>\<close> stands behind a \<open><\<close>: the string holds nothing that \<open>/<[^>]*?>/\<close>
  matches.
\<close>

fun tagFree :: "jsstring \<Rightarrow> bool" where
  "tagFree [] = True"
| "tagFree (c # cs) = ((c \<noteq> 0x3C \<or> 0x3E \<notin> set cs) \<and> tagFree cs)"

text \<open>
  The matcher finds nothing at any position of the string, \<open>prev\<close> being the code unit
  before it.
\<close>

fun matchFree :: "matcher \<Rightarrow> codeunit option \<Rightarrow> jsstring \<Rightarrow> bool" where
  "matchFree m prev [] = True"
| "matchFree m prev (c # cs) =
     ((case m prev (c # cs) of Some (Suc k) \<Rightarrow> False | _ \<Rightarrow> True) \<and> matchFree m (Some c) cs)"

text \<open>
  The values inside the model: no object has a key \<open>__proto__\<close> or \<open>toString\<close>,
  and the keys of an object are distinct.
\<close>

fun plainJson :: "jsval \<Rightarrow> bool" where
  "plainJson (VArr xs) = list_all plainJson xs"
| "plainJson (VObj kvs) =
     (distinct (map fst kvs) \<and>
      list_all (\<lambda>kv. fst kv \<noteq> js ''__proto__'' \<and> fst kv \<noteq> js ''toString'' \<and> plainJson (snd kv)) kvs)"
| "plainJson v = True"

text \<open>
  What the configured downstream does with the envelope of the validated fields:
  \<open>None\<close> when neither a binding nor a URL is configured.
\<close>

definition downstream ::
  "worker \<Rightarrow> platform \<Rightarrow> env \<Rightarrow> (jsstring \<times> jsval) list \<Rightarrow> outcome option" where
  "downstream w p e flds =
     (case TRANSIT e of
        Some f \<Rightarrow> Some (f (envelopeOf w p e flds))
      | None \<Rightarrow>
          if orStr (TRANSIT_URL e) [] \<noteq> []
          then Some (fetchUrl p (orStr (TRANSIT_URL e) []) (envelopeOf w p e flds))
          else None)"

subsection \<open>Examples\<close>

text \<open>
  A platform for the examples: its \<open>JSON.parse\<close> knows the texts of the examples
  only, and it is used on ASCII strings only.
\<close>

definition submissionA :: jsval where
  "submissionA =
     VObj [(js ''Name'', VStr (js ''Jo'')),
           (js ''Email'', VStr (js ''a@b.co'')),
           (js ''What are you interested in?'', VStr (js ''IT Support''))]"

definition textA :: jsstring where
  "textA = js ''{\"Name\":\"Jo\",\"Email\":\"a@b.co\",\"What are you interested in?\":\"IT Support\"}''"

definition examplePlatform :: platform where
  "examplePlatform =
     \<lparr>nfkc = (\<lambda>s. s),
      jsonParse = (\<lambda>t. if t = js ''{}'' then Some (VObj [])
                        else if t = textA then Some submissionA
                        else if t = js ''{\"form\":\"contact\"}''
                        then Some (VObj [(js ''form'', VStr (js ''contact''))])
                        else if t = js ''{\"form\":\"unknown\"}''
                        then Some (VObj [(js ''form'', VStr (js ''unknown''))])
                        else None),
      now = js ''2025-01-01T00:00:00.000Z'',
      fetchUrl = (\<lambda>u b. Threw),
      notDefinedMessage = (\<lambda>n. n @ js '' is not defined'')\<rparr>"

definition exampleEnv :: env where
  "exampleEnv =
     \<lparr>ALLOWED_ORIGINS = Some (js ''https://a.example, https://b.example''),
      MAX_BODY_BYTES = None, MAX_FIELD_BYTES = None, ASSET_ID = None,
      TRANSIT = None, TRANSIT_URL = None, API_TOKEN = None\<rparr>"

definition examplePost :: "jsstring \<Rightarrow> jsstring \<Rightarrow> request" where
  "examplePost path txt =
     \<lparr>httpMethod = js ''POST'', pathname = path,
      originHeader = Some (js ''https://b.example''),
      authorizationHeader = None, bodyText = Some txt\<rparr>"

text \<open>A submission with 51 skills, and a spreadsheet service that answers every call.\<close>

definition submissionTooMany :: jsval where
  "submissionTooMany =
     VObj [(js ''Name'', VStr (js ''Jo'')), (js ''Email'', VStr (js ''a@b.co'')),
           (js ''Skills'', VArr (replicate 51 (VStr (js ''x''))))]"

definition exampleSheets :: sheets where
  "exampleSheets =
     \<lparr>signs = True, tokenFetch = Responded 200,
      tokenJson = Some (VObj [(js ''access_token'', VStr (js ''ya29''))]),
      appendFetch = Responded 200\<rparr>"

section \<open>Properties of the sanitizer\<close>

lemmas string_eval =
  js_def isSpace_def isDigit_def isWord_def asciiLower_def trim_def trimStart_def trimEnd_def

lemmas sanitize_eval =
  sanitizeString_def normalizeNFKC_def isAscii_def replaceCtrl_def isCtrl_def removeBidi_def
  isBidi_def matchTag_def matchOn_def matchJs_def string_eval

subsection \<open>The three patterns\<close>

text \<open>
  Each matcher finds exactly the matches of its pattern: a match is a way to split the
  string as the pattern says, and its length is then the one that the matcher returns.
  So at a position there is at most one match, and lazy or greedy repetition makes no
  difference.
\<close>

lemma takeWhile_stop:
  assumes "\<forall>x\<in>set xs. P x" and "ys = [] \<or> \<not> P (hd ys)"
  shows "takeWhile P (xs @ ys) = xs" and "dropWhile P (xs @ ys) = ys"
proof -
  have t: "takeWhile P ys = []" and d: "dropWhile P ys = ys"
    using assms(2) by (cases ys; simp)+
  show "takeWhile P (xs @ ys) = xs" using assms(1) t by (simp add: takeWhile_append2)
  show "dropWhile P (xs @ ys) = ys" using assms(1) d by (simp add: dropWhile_append2)
qed

lemma split_takeWhile:
  assumes "x \<in> set s" and "\<not> P x"
  shows "\<exists>rest. s = takeWhile P s @ hd (dropWhile P s) # rest \<and> \<not> P (hd (dropWhile P s))"
proof -
  have ne: "dropWhile P s \<noteq> []" using assms by (auto simp add: dropWhile_eq_Nil_conv)
  then have "\<not> P (hd (dropWhile P s))" by (rule hd_dropWhile)
  moreover have "s = takeWhile P s @ hd (dropWhile P s) # tl (dropWhile P s)"
    using ne by simp
  ultimately show ?thesis by blast
qed

lemma matchTag_iff:
  "matchTag p s = Some n \<longleftrightarrow>
     (\<exists>mid rest. s = 0x3C # mid @ 0x3E # rest \<and> 0x3E \<notin> set mid \<and> n = length mid + 2)"
proof
  assume m: "matchTag p s = Some n"
  then obtain cs where s: "s = 0x3C # cs" and gt: "0x3E \<in> set cs"
    and n: "n = length (takeWhile (\<lambda>x. x \<noteq> 0x3E) cs) + 2"
    by (cases s) (auto simp add: matchTag_def split: if_splits)
  from split_takeWhile[of "0x3E" cs "\<lambda>x. x \<noteq> 0x3E"] gt
  obtain rest where "cs = takeWhile (\<lambda>x. x \<noteq> 0x3E) cs @ 0x3E # rest" by auto
  moreover have "0x3E \<notin> set (takeWhile (\<lambda>x. x \<noteq> 0x3E) cs)"
    using set_takeWhileD[of "0x3E" "\<lambda>x. x \<noteq> 0x3E" cs] by blast
  ultimately show "\<exists>mid rest. s = 0x3C # mid @ 0x3E # rest \<and> 0x3E \<notin> set mid \<and> n = length mid + 2"
    using s n by (metis append_Cons)
next
  assume "\<exists>mid rest. s = 0x3C # mid @ 0x3E # rest \<and> 0x3E \<notin> set mid \<and> n = length mid + 2"
  then obtain mid rest where s: "s = 0x3C # mid @ 0x3E # rest" and mid: "0x3E \<notin> set mid"
    and n: "n = length mid + 2" by blast
  have "takeWhile (\<lambda>x. x \<noteq> 0x3E) (mid @ 0x3E # rest) = mid"
    using mid by (intro takeWhile_stop) auto
  then show "matchTag p s = Some n" using s n by (simp add: matchTag_def)
qed

lemma space_not_word: "isSpace c \<Longrightarrow> \<not> isWord c"
  unfolding isSpace_def isWord_def isDigit_def by unat_arith

lemma matchOn_iff:
  "matchOn p s = Some n \<longleftrightarrow>
     (case p of None \<Rightarrow> True | Some c \<Rightarrow> \<not> isWord c) \<and>
     (\<exists>c1 c2 w sp rest.
        s = c1 # c2 # w @ sp @ 0x3D # rest \<and> asciiLower c1 = 0x6F \<and> asciiLower c2 = 0x6E \<and>
        w \<noteq> [] \<and> list_all isWord w \<and> list_all isSpace sp \<and>
        n = 2 + length w + length sp + 1)"
proof
  assume m: "matchOn p s = Some n"
  then obtain c1 c2 r where s: "s = c1 # c2 # r"
    by (cases s rule: list.exhaust; cases "tl s") (auto simp add: matchOn_def)
  let ?w = "takeWhile isWord r" and ?sp = "takeWhile isSpace (dropWhile isWord r)"
  let ?after = "dropWhile isSpace (dropWhile isWord r)"
  from m s have b: "case p of None \<Rightarrow> True | Some c \<Rightarrow> \<not> isWord c"
    and c: "asciiLower c1 = 0x6F" "asciiLower c2 = 0x6E" and w: "?w \<noteq> []"
    and a: "?after \<noteq> []" "hd ?after = 0x3D" and n: "n = 2 + length ?w + length ?sp + 1"
    by (auto simp add: matchOn_def Let_def split: if_splits)
  have "r = ?w @ ?sp @ ?after" by simp
  moreover have "?after = 0x3D # tl ?after" using a by (metis list.collapse)
  ultimately have r: "r = ?w @ ?sp @ 0x3D # tl ?after" by metis
  have "list_all isWord ?w" "list_all isSpace ?sp"
    by (auto simp add: list_all_iff dest: set_takeWhileD)
  with b c w n s r show "(case p of None \<Rightarrow> True | Some c \<Rightarrow> \<not> isWord c) \<and>
     (\<exists>c1 c2 w sp rest.
        s = c1 # c2 # w @ sp @ 0x3D # rest \<and> asciiLower c1 = 0x6F \<and> asciiLower c2 = 0x6E \<and>
        w \<noteq> [] \<and> list_all isWord w \<and> list_all isSpace sp \<and>
        n = 2 + length w + length sp + 1)"
    by blast
next
  assume "(case p of None \<Rightarrow> True | Some c \<Rightarrow> \<not> isWord c) \<and>
     (\<exists>c1 c2 w sp rest.
        s = c1 # c2 # w @ sp @ 0x3D # rest \<and> asciiLower c1 = 0x6F \<and> asciiLower c2 = 0x6E \<and>
        w \<noteq> [] \<and> list_all isWord w \<and> list_all isSpace sp \<and>
        n = 2 + length w + length sp + 1)"
  then obtain c1 c2 w sp rest where b: "case p of None \<Rightarrow> True | Some c \<Rightarrow> \<not> isWord c"
    and s: "s = c1 # c2 # w @ sp @ 0x3D # rest"
    and c: "asciiLower c1 = 0x6F" "asciiLower c2 = 0x6E" and w: "w \<noteq> []"
    and aw: "list_all isWord w" and asp: "list_all isSpace sp"
    and n: "n = 2 + length w + length sp + 1" by blast
  have eqw: "\<not> isWord 0x3D" and eqs: "\<not> isSpace 0x3D"
    by (simp_all add: isWord_def isDigit_def isSpace_def)
  have stop: "sp @ 0x3D # rest = [] \<or> \<not> isWord (hd (sp @ 0x3D # rest))"
    using asp eqw space_not_word by (cases sp) (auto simp add: list_all_iff)
  have tw: "takeWhile isWord (w @ sp @ 0x3D # rest) = w"
    and dw: "dropWhile isWord (w @ sp @ 0x3D # rest) = sp @ 0x3D # rest"
    using takeWhile_stop[where P=isWord and xs=w and ys="sp @ 0x3D # rest"] stop aw
    by (simp_all add: list_all_iff)
  have ts: "takeWhile isSpace (sp @ 0x3D # rest) = sp"
    and ds: "dropWhile isSpace (sp @ 0x3D # rest) = 0x3D # rest"
    using asp eqs by (auto intro!: takeWhile_stop simp add: list_all_iff)
  have after: "dropWhile isSpace (dropWhile isWord (w @ sp @ 0x3D # rest)) = 0x3D # rest"
    and sp': "takeWhile isSpace (dropWhile isWord (w @ sp @ 0x3D # rest)) = sp"
    by (simp_all only: dw ds ts)
  show "matchOn p s = Some n"
    unfolding matchOn_def s list.case Let_def tw after sp'
    using b c w n by simp
qed

lemma matchJs_iff:
  "matchJs p s = Some n \<longleftrightarrow>
     (\<exists>l sp rest.
        s = l @ sp @ 0x3A # rest \<and> map asciiLower l = js ''javascript'' \<and>
        list_all isSpace sp \<and> n = 10 + length sp + 1)"
proof
  assume m: "matchJs p s = Some n"
  let ?sp = "takeWhile isSpace (drop 10 s)" and ?after = "dropWhile isSpace (drop 10 s)"
  from m have l: "map asciiLower (take 10 s) = js ''javascript''"
    and a: "?after \<noteq> []" "hd ?after = 0x3A" and n: "n = 10 + length ?sp + 1"
    by (auto simp add: matchJs_def Let_def split: if_splits)
  have "s = take 10 s @ ?sp @ ?after" by simp
  moreover have "?after = 0x3A # tl ?after" using a by (metis list.collapse)
  ultimately have "s = take 10 s @ ?sp @ 0x3A # tl ?after" by metis
  moreover have "list_all isSpace ?sp" by (auto simp add: list_all_iff dest: set_takeWhileD)
  ultimately show "\<exists>l sp rest.
        s = l @ sp @ 0x3A # rest \<and> map asciiLower l = js ''javascript'' \<and>
        list_all isSpace sp \<and> n = 10 + length sp + 1"
    using l n by blast
next
  assume "\<exists>l sp rest.
        s = l @ sp @ 0x3A # rest \<and> map asciiLower l = js ''javascript'' \<and>
        list_all isSpace sp \<and> n = 10 + length sp + 1"
  then obtain l sp rest where s: "s = l @ sp @ 0x3A # rest"
    and l: "map asciiLower l = js ''javascript''" and asp: "list_all isSpace sp"
    and n: "n = 10 + length sp + 1" by blast
  have "length (map asciiLower l) = length (js ''javascript'')" using l by simp
  then have len: "length l = 10" by (simp add: js_def)
  have cs: "\<not> isSpace 0x3A" by (simp add: isSpace_def)
  have ts: "takeWhile isSpace (sp @ 0x3A # rest) = sp"
    and ds: "dropWhile isSpace (sp @ 0x3A # rest) = 0x3A # rest"
    using asp cs by (auto intro!: takeWhile_stop simp add: list_all_iff)
  have d10: "drop 10 (l @ sp @ 0x3A # rest) = sp @ 0x3A # rest"
    and t10: "take 10 (l @ sp @ 0x3A # rest) = l"
    using len by simp_all
  show "matchJs p s = Some n"
    unfolding matchJs_def s Let_def d10 t10 ts ds
    using l n by simp
qed

subsection \<open>What a global replace keeps\<close>

lemma set_removeAll_re: "set (removeAll_re m p s) \<subseteq> set s"
proof (induction m p s rule: removeAll_re.induct)
  case (1 m prev)
  then show ?case by simp
next
  case (2 m prev c cs)
  show ?case
  proof (cases "m prev (c # cs)")
    case None
    with 2 show ?thesis by auto
  next
    case (Some n)
    show ?thesis
    proof (cases n)
      case 0
      with Some 2 show ?thesis by auto
    next
      case (Suc k)
      with Some 2 have "set (removeAll_re m (Some ((c # cs) ! k)) (drop k cs)) \<subseteq> set (drop k cs)"
        by simp
      moreover have "set (drop k cs) \<subseteq> set cs" by (rule set_drop_subset)
      ultimately show ?thesis using Some Suc by auto
    qed
  qed
qed

lemma matchFree_removeAll_re: "matchFree m p s \<Longrightarrow> removeAll_re m p s = s"
proof (induction m p s rule: removeAll_re.induct)
  case (1 m prev)
  then show ?case by simp
next
  case (2 m prev c cs)
  then show ?case by (auto split: option.splits nat.splits)
qed

subsection \<open>Tags\<close>

lemma tagFree_drop: "tagFree s \<Longrightarrow> tagFree (drop k s)"
proof (induction s arbitrary: k)
  case Nil
  then show ?case by simp
next
  case (Cons c cs)
  then show ?case by (cases k) auto
qed

lemma tagFree_take: "tagFree s \<Longrightarrow> tagFree (take k s)"
proof (induction s arbitrary: k)
  case Nil
  then show ?case by simp
next
  case (Cons c cs)
  show ?case
  proof (cases k)
    case 0
    then show ?thesis by simp
  next
    case (Suc j)
    with Cons set_take_subset[of j cs] show ?thesis by auto
  qed
qed

lemma tagFree_removeAll_re: "tagFree s \<Longrightarrow> tagFree (removeAll_re m p s)"
proof (induction m p s rule: removeAll_re.induct)
  case (1 m prev)
  then show ?case by simp
next
  case (2 m prev c cs)
  show ?case
  proof (cases "m prev (c # cs)")
    case None
    with 2 set_removeAll_re[of m "Some c" cs] show ?thesis by auto
  next
    case (Some n)
    show ?thesis
    proof (cases n)
      case 0
      with Some 2 set_removeAll_re[of m "Some c" cs] show ?thesis by auto
    next
      case (Suc k)
      with Some 2 tagFree_drop[of cs k] show ?thesis by simp
    qed
  qed
qed

lemma matchTag_Cons:
  "matchTag p (c # cs) =
     (if c = 0x3C \<and> 0x3E \<in> set cs
      then Some (Suc (Suc (length (takeWhile (\<lambda>x. x \<noteq> 0x3E) cs)))) else None)"
  by (simp add: matchTag_def)

lemma tagFree_stripTags: "tagFree (removeAll_re matchTag p s)"
proof (induction matchTag p s rule: removeAll_re.induct)
  case (1 prev)
  then show ?case by simp
next
  case (2 prev c cs)
  show ?case
  proof (cases "c = 0x3C \<and> 0x3E \<in> set cs")
    case True
    then show ?thesis using 2 by (simp add: matchTag_Cons)
  next
    case False
    then show ?thesis
      using 2 set_removeAll_re[of matchTag "Some c" cs] by (auto simp add: matchTag_Cons)
  qed
qed

lemma tagFree_matchFree: "tagFree s \<Longrightarrow> matchFree matchTag p s"
  by (induction s arbitrary: p) (auto simp add: matchTag_Cons)

subsection \<open>Trimming\<close>

lemma trimStart_set: "set (trimStart s) \<subseteq> set s"
  by (simp add: trimStart_def set_dropWhileD subsetI)

lemma trimEnd_set: "set (trimEnd s) \<subseteq> set s"
  unfolding trimEnd_def using set_dropWhileD[of _ isSpace "rev s"] by auto

lemma trim_set: "set (trim s) \<subseteq> set s"
  unfolding trim_def using trimStart_set trimEnd_set by blast

lemma trimEnd_take: "trimEnd s = take (length (trimEnd s)) s"
proof -
  have "rev s = takeWhile isSpace (rev s) @ dropWhile isSpace (rev s)" by simp
  then have "s = rev (dropWhile isSpace (rev s)) @ rev (takeWhile isSpace (rev s))"
    by (metis rev_append rev_rev_ident)
  then have "s = trimEnd s @ rev (takeWhile isSpace (rev s))" by (simp add: trimEnd_def)
  then show ?thesis by (metis append_eq_conv_conj)
qed

lemma trimStart_drop: "trimStart s = drop (length (takeWhile isSpace s)) s"
  by (simp add: trimStart_def dropWhile_eq_drop)

lemma tagFree_trim: "tagFree s \<Longrightarrow> tagFree (trim s)"
  unfolding trim_def
  by (metis tagFree_take tagFree_drop trimEnd_take trimStart_drop)

lemma trimEnd_idem: "trimEnd (trimEnd s) = trimEnd s"
  by (simp add: trimEnd_def)

lemma trimStart_trimEnd: "trimStart (trimEnd (trimStart s)) = trimEnd (trimStart s)"
proof (cases "trimEnd (trimStart s)")
  case Nil
  then show ?thesis by (simp add: trimStart_def)
next
  case (Cons c cs)
  have "trimEnd (trimStart s) = take (length (trimEnd (trimStart s))) (trimStart s)"
    by (rule trimEnd_take)
  with Cons have "hd (trimStart s) = c \<and> trimStart s \<noteq> []"
    by (metis hd_take list.sel(1) list.simps(3) take_Nil length_greater_0_conv take_eq_Nil)
  then have "\<not> isSpace c" unfolding trimStart_def
    by (metis hd_dropWhile)
  with Cons show ?thesis by (simp add: trimStart_def)
qed

lemma trim_idem: "trim (trim s) = trim s"
  by (simp add: trim_def trimStart_trimEnd trimEnd_idem)

subsection \<open>Control and bidirectional characters\<close>

lemma replaceCtrl_noCtrl: "c \<in> set (replaceCtrl s) \<Longrightarrow> \<not> isCtrl c"
  by (auto simp add: replaceCtrl_def isCtrl_def split: if_splits)

lemma replaceCtrl_id: "\<forall>c\<in>set s. \<not> isCtrl c \<Longrightarrow> replaceCtrl s = s"
  by (simp add: replaceCtrl_def map_idI)

lemma removeBidi_noBidi: "c \<in> set (removeBidi s) \<Longrightarrow> \<not> isBidi c"
  by (simp add: removeBidi_def)

lemma removeBidi_set: "set (removeBidi s) \<subseteq> set s"
  by (auto simp add: removeBidi_def)

lemma removeBidi_id: "\<forall>c\<in>set s. \<not> isBidi c \<Longrightarrow> removeBidi s = s"
  by (simp add: removeBidi_def)

subsection \<open>The sanitised string\<close>

lemma sanitizeString_set:
  "set (sanitizeString nf s) \<subseteq> set (removeBidi (replaceCtrl (normalizeNFKC nf s)))"
proof -
  let ?u = "removeBidi (replaceCtrl (normalizeNFKC nf s))"
  have "set (sanitizeString nf s) \<subseteq>
        set (removeAll_re matchJs None (removeAll_re matchOn None (removeAll_re matchTag None ?u)))"
    by (simp add: sanitizeString_def Let_def trim_set)
  also have "\<dots> \<subseteq> set (removeAll_re matchOn None (removeAll_re matchTag None ?u))"
    by (rule set_removeAll_re)
  also have "\<dots> \<subseteq> set (removeAll_re matchTag None ?u)"
    by (rule set_removeAll_re)
  also have "\<dots> \<subseteq> set ?u"
    by (rule set_removeAll_re)
  finally show ?thesis .
qed

lemma sanitizeString_tagFree: "tagFree (sanitizeString nf s)"
  by (simp add: sanitizeString_def Let_def tagFree_trim tagFree_removeAll_re tagFree_stripTags)

lemma sanitizeString_trimmed: "trim (sanitizeString nf s) = sanitizeString nf s"
  by (simp add: sanitizeString_def Let_def trim_idem)

subsection \<open>Strings that the sanitizer leaves alone\<close>

lemma ascii_not_bidi: "c < 0x80 \<Longrightarrow> \<not> isBidi c"
proof -
  assume a: "c < 0x80"
  from a have 1: "c < 0x200E" by (rule less_trans) simp
  from a have 2: "c < 0x200F" by (rule less_trans) simp
  from a have 3: "c < 0x202A" by (rule less_trans) simp
  from a have 4: "c < 0x2066" by (rule less_trans) simp
  show ?thesis using 1 2 3 4 by (auto simp add: isBidi_def)
qed

lemma dropWhile_none: "\<forall>c\<in>set s. \<not> P c \<Longrightarrow> dropWhile P s = s"
  by (cases s) auto

lemma trim_no_space: "\<forall>c\<in>set s. \<not> isSpace c \<Longrightarrow> trim s = s"
proof -
  assume a: "\<forall>c\<in>set s. \<not> isSpace c"
  have 1: "dropWhile isSpace s = s" using a by (rule dropWhile_none)
  have "\<forall>c\<in>set (rev s). \<not> isSpace c" using a by simp
  then have 2: "dropWhile isSpace (rev s) = rev s" by (rule dropWhile_none)
  show ?thesis by (simp add: trim_def trimStart_def trimEnd_def 1 2)
qed

lemma matchOn_head: "matchOn p (c # cs) = Some n \<Longrightarrow> asciiLower c = 0x6F"
  by (cases cs) (auto simp add: matchOn_def Let_def split: if_splits)

lemma matchJs_head: "matchJs p (c # cs) = Some n \<Longrightarrow> asciiLower c = 0x6A"
  by (auto simp add: matchJs_def Let_def js_def split: if_splits)

lemma matchFree_matchOn_inert:
  "\<forall>c\<in>set s. asciiLower c \<noteq> 0x6F \<Longrightarrow> matchFree matchOn p s"
proof (induction s arbitrary: p)
  case Nil
  then show ?case by simp
next
  case (Cons c cs)
  then have "matchOn p (c # cs) = None"
    using matchOn_head[of p c cs] by (cases "matchOn p (c # cs)") auto
  with Cons show ?case by simp
qed

lemma matchFree_matchJs_inert:
  "\<forall>c\<in>set s. asciiLower c \<noteq> 0x6A \<Longrightarrow> matchFree matchJs p s"
proof (induction s arbitrary: p)
  case Nil
  then show ?case by simp
next
  case (Cons c cs)
  then have "matchJs p (c # cs) = None"
    using matchJs_head[of p c cs] by (cases "matchJs p (c # cs)") auto
  with Cons show ?case by simp
qed

lemma tagFree_no_lt: "0x3C \<notin> set s \<Longrightarrow> tagFree s"
  by (induction s) auto

lemma sanitizeString_inert:
  assumes "\<forall>c\<in>set s. c < 0x80 \<and> \<not> isCtrl c \<and> \<not> isSpace c \<and> c \<noteq> 0x3C \<and>
                      asciiLower c \<noteq> 0x6F \<and> asciiLower c \<noteq> 0x6A"
  shows "sanitizeString nf s = s"
proof -
  have n: "normalizeNFKC nf s = s"
    using assms by (simp add: normalizeNFKC_def isAscii_def list_all_iff)
  have c: "replaceCtrl s = s" using assms by (simp add: replaceCtrl_id)
  have "\<forall>c\<in>set s. \<not> isBidi c"
    using assms ascii_not_bidi by blast
  then have b: "removeBidi s = s" by (rule removeBidi_id)
  have t: "removeAll_re matchTag None s = s"
    using assms by (intro matchFree_removeAll_re tagFree_matchFree tagFree_no_lt) blast
  have o: "removeAll_re matchOn None s = s"
    using assms by (intro matchFree_removeAll_re matchFree_matchOn_inert) blast
  have j: "removeAll_re matchJs None s = s"
    using assms by (intro matchFree_removeAll_re matchFree_matchJs_inert) blast
  have r: "trim s = s" using assms by (intro trim_no_space) blast
  show ?thesis by (simp add: sanitizeString_def n c b t o j r)
qed

text \<open>
  Removing one inline handler can bring the pieces of another together.
\<close>

lemma sanitizeString_handler_example:
  "sanitizeString (\<lambda>s. s) (js ''onA onB= ='') = js ''onA  ='' \<and>
   sanitizeString (\<lambda>s. s) (js ''onA  ='') = []"
  by (simp add: sanitize_eval)

text \<open>
  Claim C1 says that the sanitizer is idempotent on every string. It is not: each
  pattern is removed in one pass, and what is left of \<open>javajavascript:script:\<close> once
  the inner \<open>javascript:\<close> is gone is \<open>javascript:\<close>, which a second run removes.
\<close>

theorem sanitizeString_not_idempotent:
  "sanitizeString (\<lambda>s. s) (sanitizeString (\<lambda>s. s) (js ''javajavascript:script:''))
     \<noteq> sanitizeString (\<lambda>s. s) (js ''javajavascript:script:'')"
  by (simp add: sanitize_eval)

text \<open>
  Claim C1, as amended: a second run of the sanitizer changes nothing whenever the result
  of the first run is in normal form NFKC and holds no match of the inline-handler
  pattern \<open>on<word>=\<close> and none of the \<open>javascript:\<close> pattern. (Control and
  bidirectional characters and tags never survive the first run, and its result is
  trimmed.)
\<close>

theorem sanitizeString_idempotent_on_clean_result:
  assumes nf: "normalizeNFKC nf (sanitizeString nf s) = sanitizeString nf s"
    and on: "matchFree matchOn None (sanitizeString nf s)"
    and js: "matchFree matchJs None (sanitizeString nf s)"
  shows "sanitizeString nf (sanitizeString nf s) = sanitizeString nf s"
proof -
  let ?t = "sanitizeString nf s"
  have "\<forall>c\<in>set ?t. \<not> isCtrl c"
    using sanitizeString_set[of nf s] removeBidi_set replaceCtrl_noCtrl by blast
  then have c: "replaceCtrl ?t = ?t" by (rule replaceCtrl_id)
  have "\<forall>c\<in>set ?t. \<not> isBidi c"
    using sanitizeString_set[of nf s] removeBidi_noBidi by blast
  then have b: "removeBidi ?t = ?t" by (rule removeBidi_id)
  have t: "removeAll_re matchTag None ?t = ?t"
    by (simp add: matchFree_removeAll_re tagFree_matchFree sanitizeString_tagFree)
  have o: "removeAll_re matchOn None ?t = ?t" using on by (rule matchFree_removeAll_re)
  have j: "removeAll_re matchJs None ?t = ?t" using js by (rule matchFree_removeAll_re)
  have "sanitizeString nf ?t = trim ?t"
    unfolding sanitizeString_def[of nf ?t] Let_def
    using nf c b t o j by simp
  then show ?thesis by (simp add: sanitizeString_trimmed)
qed

theorem sanitizeString_idempotent_on_clean_result_witness:
  "sanitizeString (\<lambda>s. s) (js '' <b>Jo</b> '') = js ''Jo'' \<and>
   normalizeNFKC (\<lambda>s. s) (js ''Jo'') = js ''Jo'' \<and>
   matchFree matchOn None (js ''Jo'') \<and>
   matchFree matchJs None (js ''Jo'') \<and>
   sanitizeString (\<lambda>s. s) (sanitizeString (\<lambda>s. s) (js '' <b>Jo</b> ''))
     = sanitizeString (\<lambda>s. s) (js '' <b>Jo</b> '')"
proof -
  have e: "sanitizeString (\<lambda>s. s) (js '' <b>Jo</b> '') = js ''Jo''"
    by (simp add: sanitize_eval)
  have n: "normalizeNFKC (\<lambda>s. s) (js ''Jo'') = js ''Jo''"
    by (simp add: normalizeNFKC_def)
  have o: "matchFree matchOn None (js ''Jo'')"
    by (simp add: sanitize_eval)
  have j: "matchFree matchJs None (js ''Jo'')"
    by (simp add: sanitize_eval)
  have "sanitizeString (\<lambda>s. s) (sanitizeString (\<lambda>s. s) (js '' <b>Jo</b> ''))
          = sanitizeString (\<lambda>s. s) (js '' <b>Jo</b> '')"
    by (rule sanitizeString_idempotent_on_clean_result) (simp_all only: e n o j)
  with e n o j show ?thesis by simp
qed
section \<open>Properties of schema validation\<close>

lemmas validate_eval =
  validateAgainstSchema_def unexpectedField_def objectKeys_def getProp_def isMissing_def
  JOIN_SCHEMA_def CONTACT_SCHEMA_def interestOptions_def orNat_def
  mustStr_def mustEmail_def mustPhone_def mustDate_def mustTime_def mustEnum_def
  emailShape_def phoneShape_def isPhoneChar_def dateShape_def timeShape_def
  strArrayCapped_def strArrayCappedWith_def

subsection \<open>The keys of the validated fields\<close>

lemma keys_update: "set (map fst (AList.update k v al)) = insert k (set (map fst al))"
  using AList.dom_update[of k v al] by simp

lemma validateFields_keys:
  "validateFields w nf fs input out = Inr res \<Longrightarrow>
   set (map fst res) = set (map fst out) \<union> set (map name fs)"
proof (induction fs arbitrary: out)
  case Nil
  then show ?case by simp
next
  case (Cons f fs)
  let ?v = "getProp input (name f)"
  show ?case
  proof (cases "isMissing ?v")
    case True
    with Cons.prems have nr: "\<not> required f" by (auto simp add: Let_def)
    let ?o = "AList.update (name f)
                (if ftype f = js ''strArrayCapped'' then VArr [] else VStr []) out"
    from Cons.prems True nr have "validateFields w nf fs input ?o = Inr res"
      by (simp add: Let_def)
    from Cons.IH[OF this] show ?thesis
      by (simp only: keys_update) auto
  next
    case False
    with Cons.prems obtain x where
      rest: "validateFields w nf fs input (AList.update (name f) x out) = Inr res"
      by (auto simp add: Let_def split: sum.splits)
    from Cons.IH[OF rest] show ?thesis
      by (simp only: keys_update) auto
  qed
qed

lemma validateFields_distinct:
  "validateFields w nf fs input out = Inr res \<Longrightarrow> distinct (map fst out) \<Longrightarrow>
   distinct (map fst res)"
proof (induction fs arbitrary: out)
  case Nil
  then show ?case by simp
next
  case (Cons f fs)
  let ?v = "getProp input (name f)"
  show ?case
  proof (cases "isMissing ?v")
    case True
    with Cons.prems have nr: "\<not> required f" by (auto simp add: Let_def)
    let ?o = "AList.update (name f)
                (if ftype f = js ''strArrayCapped'' then VArr [] else VStr []) out"
    from Cons.prems True nr have "validateFields w nf fs input ?o = Inr res"
      by (simp add: Let_def)
    then show ?thesis
      using Cons.IH[of ?o] Cons.prems(2) AList.distinct_update[of out "name f"] by blast
  next
    case False
    with Cons.prems obtain x where
      rest: "validateFields w nf fs input (AList.update (name f) x out) = Inr res"
      by (auto simp add: Let_def split: sum.splits)
    then show ?thesis
      using Cons.IH[of "AList.update (name f) x out"] Cons.prems(2)
        AList.distinct_update[of out "name f" x] by blast
  qed
qed

lemma validateAgainstSchema_Inr:
  assumes "validateAgainstSchema w nf formName sch input = Inr out"
  shows "set (map fst out) = set (map name (schema_fields sch)) \<and> distinct (map fst out)"
proof -
  from assms have v: "validateFields w nf (schema_fields sch) input [] = Inr out"
    unfolding validateAgainstSchema_def by (auto split: if_splits option.splits)
  from validateFields_keys[OF v] validateFields_distinct[OF v] show ?thesis by simp
qed

lemma unexpectedField_Some:
  assumes "k \<in> set (objectKeys input)" and "k \<notin> set (map name (schema_fields sch))"
  shows "\<exists>k'. unexpectedField sch input = Some k' \<and> k' \<in> set (objectKeys input) \<and>
              k' \<notin> set (map name (schema_fields sch))"
proof (cases "unexpectedField sch input")
  case None
  with assms show ?thesis by (auto simp add: unexpectedField_def find_None_iff)
next
  case (Some k')
  then show ?thesis by (auto simp add: unexpectedField_def find_Some_iff)
qed

text \<open>
  Claim C2: when the validation of either intake worker succeeds, the keys of the
  validated fields are exactly the names that the worker's schema declares, each once;
  and when some key of the input is not declared in the schema, the validation fails
  with \<open>unexpected field: k\<close>, \<open>k\<close> being the first such key, whatever the other
  fields hold (the check runs before the output object is created).
\<close>

theorem validateAgainstSchema_exact_keys:
  "(validateAgainstSchema w nf (formOf w) (schemaOf w) input = Inr out \<longrightarrow>
      set (map fst out) = set (map name (schema_fields (schemaOf w))) \<and>
      distinct (map fst out)) \<and>
   (k \<in> set (objectKeys input) \<and> k \<notin> set (map name (schema_fields (schemaOf w))) \<longrightarrow>
      (\<exists>k'. k' \<in> set (objectKeys input) \<and>
            k' \<notin> set (map name (schema_fields (schemaOf w))) \<and>
            unexpectedField (schemaOf w) input = Some k' \<and>
            validateAgainstSchema w nf (formOf w) (schemaOf w) input
              = Inl (js ''unexpected field: '' @ k')))"
proof (intro conjI impI)
  assume "validateAgainstSchema w nf (formOf w) (schemaOf w) input = Inr out"
  from validateAgainstSchema_Inr[OF this]
  show "set (map fst out) = set (map name (schema_fields (schemaOf w)))"
    and "distinct (map fst out)" by simp_all
next
  assume "k \<in> set (objectKeys input) \<and> k \<notin> set (map name (schema_fields (schemaOf w)))"
  then obtain k' where k': "unexpectedField (schemaOf w) input = Some k'"
    "k' \<in> set (objectKeys input)" "k' \<notin> set (map name (schema_fields (schemaOf w)))"
    using unexpectedField_Some[of k input "schemaOf w"] by blast
  then have "validateAgainstSchema w nf (formOf w) (schemaOf w) input
               = Inl (js ''unexpected field: '' @ k')"
    by (simp add: validateAgainstSchema_def)
  with k' show "\<exists>k'. k' \<in> set (objectKeys input) \<and>
            k' \<notin> set (map name (schema_fields (schemaOf w))) \<and>
            unexpectedField (schemaOf w) input = Some k' \<and>
            validateAgainstSchema w nf (formOf w) (schemaOf w) input
              = Inl (js ''unexpected field: '' @ k')" by blast
qed

lemma validate_submissionA:
  "validateAgainstSchema JoinIntake (\<lambda>s. s) (js ''join'') JOIN_SCHEMA submissionA =
     Inr [(js ''Name'', VStr (js ''Jo'')), (js ''Email'', VStr (js ''a@b.co'')),
          (js ''Phone'', VStr []), (js ''Skills'', VArr []), (js ''Education'', VArr []),
          (js ''Certification'', VArr []), (js ''Hobbies'', VArr []),
          (js ''What are you interested in?'', VStr (js ''IT Support'')),
          (js ''Continued Education'', VArr []), (js ''Experience'', VArr []),
          (js ''Tell us about yourself'', VStr [])]"
  by code_simp

theorem validateAgainstSchema_exact_keys_witness:
  "validateAgainstSchema JoinIntake (\<lambda>s. s) (formOf JoinIntake) (schemaOf JoinIntake) submissionA =
     Inr [(js ''Name'', VStr (js ''Jo'')), (js ''Email'', VStr (js ''a@b.co'')),
          (js ''Phone'', VStr []), (js ''Skills'', VArr []), (js ''Education'', VArr []),
          (js ''Certification'', VArr []), (js ''Hobbies'', VArr []),
          (js ''What are you interested in?'', VStr (js ''IT Support'')),
          (js ''Continued Education'', VArr []), (js ''Experience'', VArr []),
          (js ''Tell us about yourself'', VStr [])] \<and>
   set (map fst
     [(js ''Name'', VStr (js ''Jo'')), (js ''Email'', VStr (js ''a@b.co'')),
      (js ''Phone'', VStr []), (js ''Skills'', VArr []), (js ''Education'', VArr []),
      (js ''Certification'', VArr []), (js ''Hobbies'', VArr []),
      (js ''What are you interested in?'', VStr (js ''IT Support'')),
      (js ''Continued Education'', VArr []), (js ''Experience'', VArr []),
      (js ''Tell us about yourself'', VStr [])])
     = set (map name (schema_fields (schemaOf JoinIntake))) \<and>
   js ''Foo'' \<in> set (objectKeys (VObj [(js ''Name'', VStr (js ''Jo'')), (js ''Foo'', VNull)])) \<and>
   js ''Foo'' \<notin> set (map name (schema_fields (schemaOf ContactIntake))) \<and>
   validateAgainstSchema ContactIntake (\<lambda>s. s) (formOf ContactIntake) (schemaOf ContactIntake)
       (VObj [(js ''Name'', VStr (js ''Jo'')), (js ''Foo'', VNull)])
     = Inl (js ''unexpected field: Foo'')"
proof -
  let ?out = "[(js ''Name'', VStr (js ''Jo'')), (js ''Email'', VStr (js ''a@b.co'')),
      (js ''Phone'', VStr []), (js ''Skills'', VArr []), (js ''Education'', VArr []),
      (js ''Certification'', VArr []), (js ''Hobbies'', VArr []),
      (js ''What are you interested in?'', VStr (js ''IT Support'')),
      (js ''Continued Education'', VArr []), (js ''Experience'', VArr []),
      (js ''Tell us about yourself'', VStr [])]"
  let ?bad = "VObj [(js ''Name'', VStr (js ''Jo'')), (js ''Foo'', VNull)]"
  have a: "validateAgainstSchema JoinIntake (\<lambda>s. s) (formOf JoinIntake) (schemaOf JoinIntake)
             submissionA = Inr ?out"
    using validate_submissionA by simp
  have b: "js ''Foo'' \<in> set (objectKeys ?bad)"
    by (simp add: objectKeys_def)
  have c: "js ''Foo'' \<notin> set (map name (schema_fields (schemaOf ContactIntake)))"
    by (simp add: CONTACT_SCHEMA_def js_def)
  have d: "unexpectedField (schemaOf ContactIntake) ?bad = Some (js ''Foo'')"
    by (simp add: unexpectedField_def objectKeys_def CONTACT_SCHEMA_def js_def)
  from validateAgainstSchema_exact_keys[of JoinIntake "\<lambda>s. s" submissionA ?out] a
  have 1: "set (map fst ?out) = set (map name (schema_fields (schemaOf JoinIntake)))"
    by blast
  from validateAgainstSchema_exact_keys[of ContactIntake "\<lambda>s. s" ?bad _ "js ''Foo''"] b c d
  have 2: "validateAgainstSchema ContactIntake (\<lambda>s. s) (formOf ContactIntake)
             (schemaOf ContactIntake) ?bad = Inl (js ''unexpected field: '' @ js ''Foo'')"
    by auto
  have 3: "js ''unexpected field: '' @ js ''Foo'' = js ''unexpected field: Foo''"
    by (simp add: js_def)
  from a 1 b c 2 3 show ?thesis by simp
qed

subsection \<open>Arrays with too many items\<close>

lemma validateFields_append:
  "validateFields w nf (a @ b) input out =
     (case validateFields w nf a input out of
        Inl e \<Rightarrow> Inl e
      | Inr o1 \<Rightarrow> validateFields w nf b input o1)"
  by (induction a arbitrary: out) (auto simp add: Let_def split: sum.splits)

lemma strArrayCappedWith_too_many:
  "maxItems < length xs \<Longrightarrow>
   strArrayCappedWith maxItems maxItemBytes maxTotalBytes nf (VArr xs) field
     = Inl (field @ js '' has too many items'')"
  by (simp add: strArrayCappedWith_def)

lemma validateFields_too_many:
  assumes "50 < length xs" and "ftype f = js ''strArrayCapped''"
    and "getProp input (name f) = Some (VArr xs)"
  shows "validateFields JoinIntake nf (f # post) input out
           = Inl (name f @ js '' has too many items'')"
proof -
  have m: "\<not> isMissing (getProp input (name f))"
    using assms(3) by (simp add: isMissing_def)
  have ne: "js ''strArrayCapped'' \<noteq> js ''string'' \<and> js ''strArrayCapped'' \<noteq> js ''email'' \<and>
            js ''strArrayCapped'' \<noteq> js ''phone'' \<and> js ''strArrayCapped'' \<noteq> js ''enum''"
    by (simp add: js_def)
  have "convertField JoinIntake nf f (VArr xs) = Inl (name f @ js '' has too many items'')"
    using assms(1,2) ne by (simp add: strArrayCapped_def strArrayCappedWith_too_many)
  with m assms(3) show ?thesis by (simp add: Let_def)
qed

text \<open>
  Claim C3: for an array of more than 50 items \<open>strArrayCapped\<close> fails with
  \<open><field> has too many items\<close>, whatever the items are (none is converted). And
  the validation of the join intake returns no fields when a field of type
  \<open>strArrayCapped\<close> holds such an array: it fails with \<open>unexpected field\<close>, with
  the error of a field that the schema lists before, or with the items-count error of
  the field.
\<close>

theorem strArrayCapped_too_many_items:
  assumes "50 < length xs"
  shows "strArrayCapped nf (VArr xs) field = Inl (field @ js '' has too many items'') \<and>
    (schema_fields JOIN_SCHEMA = pre @ f # post \<and> ftype f = js ''strArrayCapped'' \<and>
     getProp input (name f) = Some (VArr xs) \<longrightarrow>
       validateAgainstSchema JoinIntake nf (js ''join'') JOIN_SCHEMA input =
         (case unexpectedField JOIN_SCHEMA input of
            Some k \<Rightarrow> Inl (js ''unexpected field: '' @ k)
          | None \<Rightarrow>
              (case validateFields JoinIntake nf pre input [] of
                 Inl e \<Rightarrow> Inl e
               | Inr o1 \<Rightarrow> Inl (name f @ js '' has too many items''))))"
proof (intro conjI impI)
  show "strArrayCapped nf (VArr xs) field = Inl (field @ js '' has too many items'')"
    using assms by (simp add: strArrayCapped_def strArrayCappedWith_too_many)
next
  assume a: "schema_fields JOIN_SCHEMA = pre @ f # post \<and> ftype f = js ''strArrayCapped'' \<and>
     getProp input (name f) = Some (VArr xs)"
  then have s: "schema_fields JOIN_SCHEMA = pre @ f # post" by simp
  have "validateFields JoinIntake nf (pre @ f # post) input [] =
          (case validateFields JoinIntake nf pre input [] of
                 Inl e \<Rightarrow> Inl e
               | Inr o1 \<Rightarrow> Inl (name f @ js '' has too many items''))"
    using a assms validateFields_too_many[of xs f input nf post]
    by (simp add: validateFields_append split: sum.splits)
  then show "validateAgainstSchema JoinIntake nf (js ''join'') JOIN_SCHEMA input =
         (case unexpectedField JOIN_SCHEMA input of
            Some k \<Rightarrow> Inl (js ''unexpected field: '' @ k)
          | None \<Rightarrow>
              (case validateFields JoinIntake nf pre input [] of
                 Inl e \<Rightarrow> Inl e
               | Inr o1 \<Rightarrow> Inl (name f @ js '' has too many items'')))"
    unfolding validateAgainstSchema_def s by (simp split: option.splits)
qed

theorem strArrayCapped_too_many_items_witness:
  "50 < length (replicate 51 (VStr (js ''x''))) \<and>
   strArrayCapped (\<lambda>s. s) (VArr (replicate 51 (VStr (js ''x'')))) (js ''Skills'')
     = Inl (js ''Skills has too many items'') \<and>
   validateAgainstSchema JoinIntake (\<lambda>s. s) (js ''join'') JOIN_SCHEMA submissionTooMany
     = Inl (js ''Skills has too many items'')"
proof -
  let ?xs = "replicate 51 (VStr (js ''x''))"
  let ?pre = "take 3 (schema_fields JOIN_SCHEMA)"
  let ?f = "schema_fields JOIN_SCHEMA ! 3"
  let ?post = "drop 4 (schema_fields JOIN_SCHEMA)"
  have l: "50 < length ?xs" by simp
  have sp: "schema_fields JOIN_SCHEMA = ?pre @ ?f # ?post"
    by (simp add: JOIN_SCHEMA_def)
  have ft: "ftype ?f = js ''strArrayCapped''" by (simp add: JOIN_SCHEMA_def)
  have nm: "name ?f = js ''Skills''" by (simp add: JOIN_SCHEMA_def)
  have gp: "getProp submissionTooMany (name ?f) = Some (VArr ?xs)"
    unfolding nm by (simp add: submissionTooMany_def getProp_def js_def)
  have un: "unexpectedField JOIN_SCHEMA submissionTooMany = None"
    by (simp add: unexpectedField_def submissionTooMany_def objectKeys_def JOIN_SCHEMA_def js_def)
  have m: "js ''Skills'' @ js '' has too many items'' = js ''Skills has too many items''"
    by (simp add: js_def)
  have pre: "isl (validateFields JoinIntake (\<lambda>s. s) ?pre submissionTooMany []) \<longrightarrow> False"
    by code_simp
  from strArrayCapped_too_many_items[OF l, of "\<lambda>s. s" "js ''Skills''" ?pre ?f ?post submissionTooMany] sp ft gp
  have 1: "strArrayCapped (\<lambda>s. s) (VArr ?xs) (js ''Skills'') = Inl (js ''Skills'' @ js '' has too many items'')"
    and 2: "validateAgainstSchema JoinIntake (\<lambda>s. s) (js ''join'') JOIN_SCHEMA submissionTooMany =
         (case unexpectedField JOIN_SCHEMA submissionTooMany of
            Some k \<Rightarrow> Inl (js ''unexpected field: '' @ k)
          | None \<Rightarrow>
              (case validateFields JoinIntake (\<lambda>s. s) ?pre submissionTooMany [] of
                 Inl e \<Rightarrow> Inl e
               | Inr o1 \<Rightarrow> Inl (name ?f @ js '' has too many items'')))"
    by blast+
  from 2 pre have "validateAgainstSchema JoinIntake (\<lambda>s. s) (js ''join'') JOIN_SCHEMA submissionTooMany
     = Inl (js ''Skills has too many items'')"
    unfolding un nm by (simp add: m split: sum.splits)
  with 1 l m show ?thesis by simp
qed

subsection \<open>Email fields\<close>

text \<open>
  \<open>emailShape\<close> is the language of the pattern \<open>/^[^\s@]+@[^\s@]+\.[^\s@]+$/\<close>.
\<close>

lemma emailShape_intro:
  assumes s: "s = L @ 0x40 # D @ 0x2E # T" and ne: "L \<noteq> []" "D \<noteq> []" "T \<noteq> []"
    and cl: "\<forall>c\<in>set (L @ D @ T). \<not> isSpace c \<and> c \<noteq> 0x40"
  shows "emailShape s"
proof -
  have "\<And>x. x \<in> set L \<Longrightarrow> x \<noteq> 0x40" using cl by auto
  then have "takeWhile (\<lambda>c. c \<noteq> 0x40) (L @ 0x40 # D @ 0x2E # T)
               = L @ takeWhile (\<lambda>c. c \<noteq> 0x40) (0x40 # D @ 0x2E # T)"
    by (rule takeWhile_append2)
  then have tw: "takeWhile (\<lambda>c. c \<noteq> 0x40) s = L" using s by simp
  have dr: "drop (length L + 1) s = D @ 0x2E # T" using s by simp
  obtain d D' where D: "D = d # D'" using ne(2) by (cases D) auto
  have bl: "butlast (tl (D @ 0x2E # T)) = D' @ 0x2E # butlast T"
    using D ne(3) by (simp add: butlast_append)
  have sp: "list_all (\<lambda>c. \<not> isSpace c) s"
    using cl s by (auto simp add: list_all_iff isSpace_def)
  have at: "0x40 \<notin> set (D @ 0x2E # T)" using cl by auto
  show ?thesis
    unfolding emailShape_def Let_def tw dr bl using ne sp at s by simp
qed

lemma split_at_first:
  assumes "length (takeWhile P s) < length s"
  shows "s = takeWhile P s @ hd (dropWhile P s) # drop (length (takeWhile P s) + 1) s \<and>
         \<not> P (hd (dropWhile P s))"
proof -
  have dw: "dropWhile P s \<noteq> []"
    using assms by (metis append_Nil2 less_irrefl takeWhile_dropWhile_id)
  then have np: "\<not> P (hd (dropWhile P s))" by (rule hd_dropWhile)
  have "tl (dropWhile P s) = drop (length (takeWhile P s) + 1) s"
    by (simp add: dropWhile_eq_drop drop_Suc tl_drop)
  with dw have "dropWhile P s = hd (dropWhile P s) # drop (length (takeWhile P s) + 1) s"
    by (metis list.collapse)
  then have "takeWhile P s @ dropWhile P s
         = takeWhile P s @ hd (dropWhile P s) # drop (length (takeWhile P s) + 1) s"
    by simp
  with np show ?thesis by simp
qed

lemma emailShape_elim:
  assumes "emailShape s"
  shows "\<exists>L D T. s = L @ 0x40 # D @ 0x2E # T \<and> L \<noteq> [] \<and> D \<noteq> [] \<and> T \<noteq> [] \<and>
           (\<forall>c\<in>set (L @ D @ T). \<not> isSpace c \<and> c \<noteq> 0x40)"
proof -
  obtain L r where L: "L = takeWhile (\<lambda>c. c \<noteq> 0x40) s" and r: "r = drop (length L + 1) s"
    by simp
  from assms have sp: "\<forall>c\<in>set s. \<not> isSpace c" and ne: "L \<noteq> []" and lt: "length L < length s"
    and at: "0x40 \<notin> set r" and dot: "0x2E \<in> set (butlast (tl r))"
    unfolding L r by (simp_all add: emailShape_def Let_def list_all_iff)
  have s: "s = L @ 0x40 # r"
    using split_at_first[of "\<lambda>c. c \<noteq> 0x40" s] lt unfolding L r by metis
  have Lat: "\<forall>c\<in>set L. c \<noteq> 0x40"
    unfolding L using set_takeWhileD[of _ "\<lambda>c. c \<noteq> 0x40" s] by blast
  from dot obtain x r' where rx: "r = x # r'" and dot': "0x2E \<in> set (butlast r')"
    by (cases r) auto
  then have r'ne: "r' \<noteq> []" by auto
  from dot' obtain m1 m2 where m: "butlast r' = m1 @ 0x2E # m2"
    by (meson split_list)
  have "r' = butlast r' @ [last r']" using r'ne by simp
  then obtain z where r': "r' = m1 @ 0x2E # m2 @ [z]" unfolding m by simp
  have s': "s = L @ 0x40 # (x # m1) @ 0x2E # (m2 @ [z])"
    using s rx r' by simp
  have "set (L @ (x # m1) @ (m2 @ [z])) \<subseteq> set s"
    using s' by auto
  then have nsp: "\<forall>c\<in>set (L @ (x # m1) @ (m2 @ [z])). \<not> isSpace c"
    using sp by blast
  have "set ((x # m1) @ (m2 @ [z])) \<subseteq> set r"
    using rx r' by auto
  then have "\<forall>c\<in>set ((x # m1) @ (m2 @ [z])). c \<noteq> 0x40"
    using at by blast
  with Lat have nat: "\<forall>c\<in>set (L @ (x # m1) @ (m2 @ [z])). c \<noteq> 0x40"
    by auto
  have "s = L @ 0x40 # (x # m1) @ 0x2E # (m2 @ [z]) \<and> L \<noteq> [] \<and> x # m1 \<noteq> [] \<and>
        m2 @ [z] \<noteq> [] \<and>
        (\<forall>c\<in>set (L @ (x # m1) @ (m2 @ [z])). \<not> isSpace c \<and> c \<noteq> 0x40)"
    using s' ne nsp nat by simp
  then show ?thesis by blast
qed

lemma emailShape_iff:
  "emailShape s \<longleftrightarrow>
     (\<exists>L D T. s = L @ 0x40 # D @ 0x2E # T \<and> L \<noteq> [] \<and> D \<noteq> [] \<and> T \<noteq> [] \<and>
        (\<forall>c\<in>set (L @ D @ T). \<not> isSpace c \<and> c \<noteq> 0x40))"
  using emailShape_elim emailShape_intro by blast

lemma emailShape_example: "0 < n \<Longrightarrow> emailShape (replicate n 0x61 @ js ''@b.cc'')"
proof -
  assume n: "0 < n"
  have tw: "takeWhile (\<lambda>c. c \<noteq> 0x40) (replicate n 0x61 @ js ''@b.cc'') = replicate n 0x61"
  proof -
    have "\<And>x. x \<in> set (replicate n (0x61::codeunit)) \<Longrightarrow> x \<noteq> 0x40" by auto
    then have "takeWhile (\<lambda>c. c \<noteq> 0x40) (replicate n 0x61 @ js ''@b.cc'')
        = replicate n 0x61 @ takeWhile (\<lambda>c. c \<noteq> 0x40) (js ''@b.cc'')"
      by (rule takeWhile_append2)
    then show ?thesis by (simp add: js_def)
  qed
  have sp: "list_all (\<lambda>c. \<not> isSpace c) (replicate n 0x61 @ js ''@b.cc'')"
    by (auto simp add: list_all_iff js_def isSpace_def)
  have dr: "drop (length (replicate n (0x61::codeunit)) + 1) (replicate n 0x61 @ js ''@b.cc'') = js ''b.cc''"
    by (simp add: js_def)
  show ?thesis
    unfolding emailShape_def tw Let_def dr using n sp by (simp add: js_def)
qed

lemma inert_254:
  "\<forall>c\<in>set (replicate n 0x61 @ js ''@b.cc''). c < 0x80 \<and> \<not> isCtrl c \<and> \<not> isSpace c \<and> c \<noteq> 0x3C \<and>
                      asciiLower c \<noteq> 0x6F \<and> asciiLower c \<noteq> 0x6A"
  by (auto simp add: js_def isCtrl_def isSpace_def asciiLower_def)

text \<open>
  Claim C7: \<open>mustEmail\<close> returns a string exactly when the sanitised string has a
  length from 3 to 254 and the shape of the pattern, and then it returns that string. In
  particular a sanitised string of length 254 with the shape passes, and one of length
  255 fails with \<open><field> too long\<close>. Lengths are counted in UTF-16 code units, as
  \<open>t.length\<close> counts them.
\<close>

theorem mustEmail_length_and_shape:
  "(mustEmail nf v field = Inr s \<longleftrightarrow>
      s = sanitizeString nf (toString v) \<and> 3 \<le> length s \<and> length s \<le> 254 \<and> emailShape s) \<and>
   (length (sanitizeString nf (toString v)) = 254 \<and> emailShape (sanitizeString nf (toString v)) \<longrightarrow>
      mustEmail nf v field = Inr (sanitizeString nf (toString v))) \<and>
   (length (sanitizeString nf (toString v)) = 255 \<longrightarrow>
      mustEmail nf v field = Inl (field @ js '' too long''))"
  by (auto simp add: mustEmail_def mustStr_def Let_def)

theorem mustEmail_length_and_shape_witness:
  "length (sanitizeString (\<lambda>s. s) (toString (VStr (replicate 249 0x61 @ js ''@b.cc'')))) = 254 \<and>
   emailShape (sanitizeString (\<lambda>s. s) (toString (VStr (replicate 249 0x61 @ js ''@b.cc'')))) \<and>
   mustEmail (\<lambda>s. s) (VStr (replicate 249 0x61 @ js ''@b.cc'')) (js ''Email'')
     = Inr (replicate 249 0x61 @ js ''@b.cc'') \<and>
   length (sanitizeString (\<lambda>s. s) (toString (VStr (replicate 250 0x61 @ js ''@b.cc'')))) = 255 \<and>
   mustEmail (\<lambda>s. s) (VStr (replicate 250 0x61 @ js ''@b.cc'')) (js ''Email'')
     = Inl (js ''Email too long'')"
proof -
  have s: "\<And>n. sanitizeString (\<lambda>s. s) (toString (VStr (replicate n 0x61 @ js ''@b.cc'')))
             = replicate n 0x61 @ js ''@b.cc''"
    using inert_254 by (simp add: sanitizeString_inert)
  have l1: "length (replicate 249 (0x61::codeunit) @ js ''@b.cc'') = 254" by (simp add: js_def)
  have l2: "length (replicate 250 (0x61::codeunit) @ js ''@b.cc'') = 255" by (simp add: js_def)
  have e: "emailShape (replicate 249 0x61 @ js ''@b.cc'')" by (simp add: emailShape_example)
  have m: "js ''Email'' @ js '' too long'' = js ''Email too long''" by (simp add: js_def)
  from mustEmail_length_and_shape[of "\<lambda>s. s" "VStr (replicate 249 0x61 @ js ''@b.cc'')" "js ''Email''"]
  have 1: "mustEmail (\<lambda>s. s) (VStr (replicate 249 0x61 @ js ''@b.cc'')) (js ''Email'')
     = Inr (replicate 249 0x61 @ js ''@b.cc'')"
    unfolding s using l1 e by simp
  from mustEmail_length_and_shape[of "\<lambda>s. s" "VStr (replicate 250 0x61 @ js ''@b.cc'')" "js ''Email''"]
  have 2: "mustEmail (\<lambda>s. s) (VStr (replicate 250 0x61 @ js ''@b.cc'')) (js ''Email'')
     = Inl (js ''Email too long'')"
    unfolding s using l2 m by simp
  show ?thesis unfolding s using 1 2 l1 l2 e by simp
qed
section \<open>Properties of the workers\<close>

subsection \<open>Dispatch and the example requests\<close>

lemma method_ne: "js ''POST'' \<noteq> js ''OPTIONS''" "js ''POST'' \<noteq> js ''GET''"
  by (simp_all add: js_def)

lemma intakeFetch_post:
  assumes "httpMethod req = js ''POST''" and "pathname req = ingressPath w"
  shows "intakeFetch w p e req =
           ingress w p e req (orStr (originHeader req) [])
             (cors (js ''content-type'') e (orStr (originHeader req) []))"
  using assms method_ne by (simp add: intakeFetch_def Let_def)

lemma sheetFetch_post:
  assumes "httpMethod req = js ''POST''" and "pathname req = js ''/log''"
  shows "sheetFetch p sh e req =
           logBranch p sh e req
             (cors (js ''content-type, authorization'') e (orStr (originHeader req) []))"
  using assms method_ne by (simp add: sheetFetch_def Let_def)

lemma utf8Length_ascii: "list_all (\<lambda>c. c < 0x80) s \<Longrightarrow> utf8Length s = length s"
  by (induction s rule: utf8Length.induct) auto

lemma toInt_default: "toInt (js ''256000'') = 256000"
  by (simp add: toInt_def parseInt10_def digitsValue_def js_def isSpace_def isDigit_def)

lemma example_allowed:
  assumes "ALLOWED_ORIGINS e = ALLOWED_ORIGINS exampleEnv"
  shows "isAllowedOrigin e (orStr (originHeader (examplePost path b)) [])"
  using assms
  by (simp add: isAllowedOrigin_def exampleEnv_def examplePost_def orStr_def string_eval)

lemma example_cors:
  assumes "ALLOWED_ORIGINS e = ALLOWED_ORIGINS exampleEnv"
  shows "cors ah e (orStr (originHeader (examplePost path b)) [])
           = cors ah exampleEnv (js ''https://b.example'')"
proof -
  have o: "orStr (originHeader (examplePost path b)) [] = js ''https://b.example''"
    by (simp add: examplePost_def orStr_def js_def)
  have "isAllowedOrigin e (js ''https://b.example'') = isAllowedOrigin exampleEnv (js ''https://b.example'')"
    using assms by (simp add: isAllowedOrigin_def)
  then show ?thesis unfolding o by (simp add: cors_def)
qed

lemma textA_size: "byteLen textA = 73"
  by (simp add: byteLen_def textA_def js_def)

lemma example_validateShape:
  "validateShape JoinIntake examplePlatform exampleEnv submissionA =
     Inr [(js ''Name'', VStr (js ''Jo'')), (js ''Email'', VStr (js ''a@b.co'')),
          (js ''Phone'', VStr []), (js ''Skills'', VArr []), (js ''Education'', VArr []),
          (js ''Certification'', VArr []), (js ''Hobbies'', VArr []),
          (js ''What are you interested in?'', VStr (js ''IT Support'')),
          (js ''Continued Education'', VArr []), (js ''Experience'', VArr []),
          (js ''Tell us about yourself'', VStr [])]"
  by code_simp

lemma validateShape_env:
  "validateShape w p (e\<lparr>TRANSIT := t\<rparr>) shape = validateShape w p e shape"
  by (simp add: validateShape_def split: sum.splits worker.splits)

lemma example_shape:
  "shapeOf submissionA = Some submissionA \<and> \<not> invalidShape (Some submissionA)"
  by (simp add: shapeOf_def invalidShape_def submissionA_def getProp_def js_def)

lemma example_parse: "jsonParse examplePlatform (if textA = [] then js ''{}'' else textA) = Some submissionA"
  by (simp add: examplePlatform_def textA_def js_def)

lemma example_request:
  "httpMethod (examplePost path txt) = js ''POST''"
  "pathname (examplePost path txt) = path"
  "bodyText (examplePost path txt) = Some txt"
  "originHeader (examplePost path txt) = Some (js ''https://b.example'')"
  by (simp_all add: examplePost_def)

lemma example_limits:
  "MAX_BODY_BYTES (exampleEnv\<lparr>TRANSIT := t\<rparr>) = None"
  by (simp add: exampleEnv_def)

lemma orStr_None: "orStr None d = d"
  by (simp add: orStr_def)

lemma example_downstream:
  "downstream w p (exampleEnv\<lparr>TRANSIT := Some (\<lambda>b. r)\<rparr>) flds = Some r"
  by (simp add: downstream_def)

lemma example_validateShape_transit:
  "validateShape JoinIntake examplePlatform (exampleEnv\<lparr>TRANSIT := t\<rparr>) submissionA =
     Inr [(js ''Name'', VStr (js ''Jo'')), (js ''Email'', VStr (js ''a@b.co'')),
          (js ''Phone'', VStr []), (js ''Skills'', VArr []), (js ''Education'', VArr []),
          (js ''Certification'', VArr []), (js ''Hobbies'', VArr []),
          (js ''What are you interested in?'', VStr (js ''IT Support'')),
          (js ''Continued Education'', VArr []), (js ''Experience'', VArr []),
          (js ''Tell us about yourself'', VStr [])]"
  by (simp only: validateShape_env example_validateShape)

lemma example_allowed_transit:
  "isAllowedOrigin (exampleEnv\<lparr>TRANSIT := t\<rparr>) (orStr (originHeader (examplePost path b)) [])"
  by (rule example_allowed) simp

lemma example_cors_transit:
  "cors ah (exampleEnv\<lparr>TRANSIT := t\<rparr>) (orStr (originHeader (examplePost path b)) [])
     = cors ah exampleEnv (js ''https://b.example'')"
  by (rule example_cors) simp

lemma example_within_limit:
  "\<not> int (byteLen textA) > toInt (orStr (MAX_BODY_BYTES (exampleEnv\<lparr>TRANSIT := t\<rparr>)) (js ''256000''))"
  by (simp add: example_limits orStr_None toInt_default textA_size)

lemma example_request_auth:
  "httpMethod ((examplePost path b)\<lparr>authorizationHeader := h\<rparr>) = js ''POST''"
  "pathname ((examplePost path b)\<lparr>authorizationHeader := h\<rparr>) = path"
  "bodyText ((examplePost path b)\<lparr>authorizationHeader := h\<rparr>) = Some b"
  "authorizationHeader ((examplePost path b)\<lparr>authorizationHeader := h\<rparr>) = h"
  "originHeader ((examplePost path b)\<lparr>authorizationHeader := h\<rparr>) = originHeader (examplePost path b)"
  by (simp_all add: examplePost_def)

lemma example_appendToSheet:
  "appendToSheet exampleSheets = (True, [TokenExchange, SheetAppend])"
  by (simp add: appendToSheet_def getAccessToken_def exampleSheets_def)

subsection \<open>Transit broker\<close>

text \<open>
  Claim C4: a \<open>POST /core\<close> whose body parses to an object is answered with 202 and
  \<open>{status: "ack", form, received_at}\<close>, \<open>form\<close> being the form of the body, when
  that form is the string \<open>contact\<close> or the string \<open>join\<close>; and with 400
  \<open>unknown_form\<close> when the form is missing, empty or anything else.
\<close>

theorem transit_known_form:
  assumes "httpMethod req = js ''POST''" and "pathname req = js ''/core''"
    and "bodyText req = Some bodyTxt"
    and "jsonParse p (if bodyTxt = [] then js ''{}'' else bodyTxt) = Some (VObj kvs)"
  shows "transitFetch p e req =
     (if map_of kvs (js ''form'') = Some (VStr (js ''contact'')) \<or>
         map_of kvs (js ''form'') = Some (VStr (js ''join''))
      then json (VObj [(js ''status'', VStr (js ''ack'')),
                       (js ''form'', the (map_of kvs (js ''form''))),
                       (js ''received_at'', VStr (now p))]) 202
             (cors (js ''content-type, x-asset-id'') e (orStr (originHeader req) []))
      else json (errorBody ''unknown_form'') 400
             (cors (js ''content-type, x-asset-id'') e (orStr (originHeader req) [])))"
proof -
  have ne: "js ''POST'' \<noteq> js ''OPTIONS''" "js ''POST'' \<noteq> js ''GET''"
    by (simp_all add: js_def)
  have tr: "truthy (VStr (js ''contact''))" "truthy (VStr (js ''join''))"
    by (simp_all add: js_def)
  show ?thesis
    using assms ne tr
    by (auto simp add: transitFetch_def transitCore_def Let_def getProp_def split: option.splits)
qed

theorem transit_known_form_witness:
  "transitFetch examplePlatform exampleEnv (examplePost (js ''/core'') (js ''{\"form\":\"contact\"}'')) =
     json (VObj [(js ''status'', VStr (js ''ack'')),
                 (js ''form'', VStr (js ''contact'')),
                 (js ''received_at'', VStr (js ''2025-01-01T00:00:00.000Z''))]) 202
       (cors (js ''content-type, x-asset-id'') exampleEnv (js ''https://b.example'')) \<and>
   transitFetch examplePlatform exampleEnv (examplePost (js ''/core'') (js ''{\"form\":\"unknown\"}'')) =
     json (errorBody ''unknown_form'') 400
       (cors (js ''content-type, x-asset-id'') exampleEnv (js ''https://b.example'')) \<and>
   transitFetch examplePlatform exampleEnv (examplePost (js ''/core'') []) =
     json (errorBody ''unknown_form'') 400
       (cors (js ''content-type, x-asset-id'') exampleEnv (js ''https://b.example''))"
proof -
  let ?c = "js ''{\"form\":\"contact\"}''" and ?u = "js ''{\"form\":\"unknown\"}''"
  have p1: "jsonParse examplePlatform (if ?c = [] then js ''{}'' else ?c)
              = Some (VObj [(js ''form'', VStr (js ''contact''))])"
    by (simp add: examplePlatform_def textA_def js_def)
  have p2: "jsonParse examplePlatform (if ?u = [] then js ''{}'' else ?u)
              = Some (VObj [(js ''form'', VStr (js ''unknown''))])"
    by (simp add: examplePlatform_def textA_def js_def)
  have p3: "jsonParse examplePlatform (if ([]::jsstring) = [] then js ''{}'' else []) = Some (VObj [])"
    by (simp add: examplePlatform_def)
  have o: "orStr (originHeader (examplePost path b)) [] = js ''https://b.example''" for path b
    by (simp add: examplePost_def orStr_def js_def)
  have n: "now examplePlatform = js ''2025-01-01T00:00:00.000Z''"
    by (simp add: examplePlatform_def)
  have u: "js ''unknown'' \<noteq> js ''contact''" "js ''unknown'' \<noteq> js ''join''"
    by (simp_all add: js_def)
  from transit_known_form[OF example_request(1) example_request(2) example_request(3) p1,
         of exampleEnv]
    transit_known_form[OF example_request(1) example_request(2) example_request(3) p2,
         of exampleEnv]
    transit_known_form[OF example_request(1) example_request(2) example_request(3) p3,
         of exampleEnv]
  show ?thesis unfolding o n using u by simp
qed

subsection \<open>Intake: forwarding\<close>

lemma forward_downstream:
  "forward w p e flds C =
     (case downstream w p e flds of
        Some (Responded st) \<Rightarrow> (case relay st C of None \<Rightarrow> validatedOnly C | Some r \<Rightarrow> r)
      | Some Threw \<Rightarrow> validatedOnly C
      | None \<Rightarrow> validatedOnly C)"
  by (simp add: forward_def downstream_def Let_def split: option.splits outcome.splits)

lemma ingress_validated:
  assumes a3: "isAllowedOrigin e origin"
    and a4: "bodyText req = Some bodyTxt"
    and a5: "\<not> int (byteLen bodyTxt) > toInt (orStr (MAX_BODY_BYTES e) (js ''256000''))"
    and a6: "jsonParse p (if bodyTxt = [] then js ''{}'' else bodyTxt) = Some input"
    and a7: "shapeOf input = Some shape" and a8: "\<not> invalidShape (Some shape)"
    and a9: "validateShape w p e shape = Inr flds"
  shows "ingress w p e req origin C = forward w p e flds C"
  unfolding ingress_def Let_def
  by (simp only: a3 a4 a5 a6 a7 a8 a9 not_True_eq_False if_False if_True option.case sum.case option.sel)

lemma intake_validated:
  assumes "httpMethod req = js ''POST''" and "pathname req = ingressPath w"
    and "isAllowedOrigin e (orStr (originHeader req) [])"
    and "bodyText req = Some bodyTxt"
    and "\<not> int (byteLen bodyTxt) > toInt (orStr (MAX_BODY_BYTES e) (js ''256000''))"
    and "jsonParse p (if bodyTxt = [] then js ''{}'' else bodyTxt) = Some input"
    and "shapeOf input = Some shape" and "\<not> invalidShape (Some shape)"
    and "validateShape w p e shape = Inr flds"
  shows "intakeFetch w p e req =
           forward w p e flds (cors (js ''content-type'') e (orStr (originHeader req) []))"
proof -
  let ?C = "cors (js ''content-type'') e (orStr (originHeader req) [])"
  have "intakeFetch w p e req = ingress w p e req (orStr (originHeader req) []) ?C"
    using assms(1,2) by (rule intakeFetch_post)
  also have "\<dots> = forward w p e flds ?C"
    using assms(3-9) by (rule ingress_validated)
  finally show ?thesis .
qed

text \<open>The example submission passes every check of the join intake.\<close>

lemma example_validated:
  "intakeFetch JoinIntake examplePlatform (exampleEnv\<lparr>TRANSIT := t\<rparr>)
     (examplePost (js ''/ingress/join'') textA) =
   forward JoinIntake examplePlatform (exampleEnv\<lparr>TRANSIT := t\<rparr>)
     [(js ''Name'', VStr (js ''Jo'')), (js ''Email'', VStr (js ''a@b.co'')),
      (js ''Phone'', VStr []), (js ''Skills'', VArr []), (js ''Education'', VArr []),
      (js ''Certification'', VArr []), (js ''Hobbies'', VArr []),
      (js ''What are you interested in?'', VStr (js ''IT Support'')),
      (js ''Continued Education'', VArr []), (js ''Experience'', VArr []),
      (js ''Tell us about yourself'', VStr [])]
     (cors (js ''content-type'') exampleEnv (js ''https://b.example''))"
proof -
  let ?req = "examplePost (js ''/ingress/join'') textA"
  have 1: "httpMethod ?req = js ''POST''" by (simp add: example_request)
  have 2: "pathname ?req = ingressPath JoinIntake" by (simp add: example_request)
  have 4: "bodyText ?req = Some textA" by (simp add: example_request)
  have 7: "shapeOf submissionA = Some submissionA" and 8: "\<not> invalidShape (Some submissionA)"
    using example_shape by simp_all
  show ?thesis
    using intake_validated[OF 1 2 example_allowed_transit 4 example_within_limit
            example_parse 7 8 example_validateShape_transit]
    unfolding example_cors_transit .
qed

lemma ingress_rejected:
  assumes a3: "isAllowedOrigin e origin"
    and a4: "bodyText req = Some bodyTxt"
    and a5: "\<not> int (byteLen bodyTxt) > toInt (orStr (MAX_BODY_BYTES e) (js ''256000''))"
    and a6: "jsonParse p (if bodyTxt = [] then js ''{}'' else bodyTxt) = Some input"
    and a7: "shapeOf input = Some shape" and a8: "\<not> invalidShape (Some shape)"
    and a9: "validateShape w p e shape = Inl m"
  shows "ingress w p e req origin C =
           json (VObj [(js ''error'', VStr (js ''validation_error'')),
                       (js ''message'', VStr (errorText m))]) 400 C"
  unfolding ingress_def Let_def
  by (simp only: a3 a4 a5 a6 a7 a8 a9 not_True_eq_False if_False if_True option.case sum.case option.sel)

text \<open>
  The join intake: for a submission inside the model that passes every check up to and
  including validation, the response is decided by the downstream alone. A downstream
  response with a status from 200 to 299 gives 202 \<open>accepted_by_transit\<close>; any other
  status that a response with a body may carry (every status from 200 to 599 but 204,
  205 and 304) gives that status with \<open>transit_rejected\<close> and the status as \<open>code\<close>;
  a status that a response with a body may not carry, a call that throws, and no
  downstream configured, give 200 \<open>validated_only\<close>.
\<close>

lemma join_forward_outcome:
  assumes "httpMethod req = js ''POST''" and "pathname req = ingressPath JoinIntake"
    and "isAllowedOrigin e (orStr (originHeader req) [])"
    and "bodyText req = Some bodyTxt"
    and "\<not> int (byteLen bodyTxt) > toInt (orStr (MAX_BODY_BYTES e) (js ''256000''))"
    and "jsonParse p (if bodyTxt = [] then js ''{}'' else bodyTxt) = Some input"
    and "plainJson input"
    and "shapeOf input = Some shape" and "\<not> invalidShape (Some shape)"
    and "validateShape JoinIntake p e shape = Inr flds"
  shows "intakeFetch JoinIntake p e req =
     (case downstream JoinIntake p e flds of
        Some (Responded st) \<Rightarrow>
          if 200 \<le> st \<and> st \<le> 299
          then json (VObj [(js ''status'', VStr (js ''accepted_by_transit''))]) 202
                 (cors (js ''content-type'') e (orStr (originHeader req) []))
          else if acceptsBody st
          then json (VObj [(js ''status'', VStr (js ''transit_rejected'')),
                           (js ''code'', VNum (showNat st))]) st
                 (cors (js ''content-type'') e (orStr (originHeader req) []))
          else json (VObj [(js ''status'', VStr (js ''validated_only'')),
                           (js ''message'', VStr (js ''Transit not configured''))]) 200
                 (cors (js ''content-type'') e (orStr (originHeader req) []))
      | Some Threw \<Rightarrow>
          json (VObj [(js ''status'', VStr (js ''validated_only'')),
                      (js ''message'', VStr (js ''Transit not configured''))]) 200
            (cors (js ''content-type'') e (orStr (originHeader req) []))
      | None \<Rightarrow>
          json (VObj [(js ''status'', VStr (js ''validated_only'')),
                      (js ''message'', VStr (js ''Transit not configured''))]) 200
            (cors (js ''content-type'') e (orStr (originHeader req) [])))"
proof -
  let ?C = "cors (js ''content-type'') e (orStr (originHeader req) [])"
  have f: "intakeFetch JoinIntake p e req = forward JoinIntake p e flds ?C"
    using assms(1-6,8-10) by (rule intake_validated)
  show ?thesis
  proof (cases "downstream JoinIntake p e flds")
    case None
    then show ?thesis by (simp only: f forward_downstream validatedOnly_def option.case)
  next
    case (Some d)
    then show ?thesis
      by (cases d) (simp_all add: f forward_downstream validatedOnly_def relay_def)
  qed
qed

text \<open>
  The contact intake never reaches the downstream: a submission that passes
  \<open>validateAgainstSchema\<close> meets the call of \<open>enforceByteLimits\<close>, which the module
  does not define, and is answered with 400 \<open>validation_error\<close> and the message of the
  \<open>ReferenceError\<close>.
\<close>

lemma contact_validateShape:
  "validateShape ContactIntake p e shape =
     (case validateAgainstSchema ContactIntake (nfkc p) (js ''contact'') CONTACT_SCHEMA
             (sanitizeValue (nfkc p) shape) of
        Inl m \<Rightarrow> Inl (Error m)
      | Inr flds \<Rightarrow> Inl (ReferenceError (notDefinedMessage p (js ''enforceByteLimits''))))"
  by (simp add: validateShape_def split: sum.splits)

lemma contact_never_forwards:
  assumes "httpMethod req = js ''POST''" and "pathname req = ingressPath ContactIntake"
    and "isAllowedOrigin e (orStr (originHeader req) [])"
    and "bodyText req = Some bodyTxt"
    and "\<not> int (byteLen bodyTxt) > toInt (orStr (MAX_BODY_BYTES e) (js ''256000''))"
    and "jsonParse p (if bodyTxt = [] then js ''{}'' else bodyTxt) = Some input"
    and "shapeOf input = Some shape" and "\<not> invalidShape (Some shape)"
    and v: "validateAgainstSchema ContactIntake (nfkc p) (js ''contact'') CONTACT_SCHEMA
              (sanitizeValue (nfkc p) shape) = Inr flds"
  shows "intakeFetch ContactIntake p e req =
           json (VObj [(js ''error'', VStr (js ''validation_error'')),
                       (js ''message'',
                        VStr (errorText (ReferenceError (notDefinedMessage p (js ''enforceByteLimits'')))))])
             400 (cors (js ''content-type'') e (orStr (originHeader req) []))"
proof -
  let ?C = "cors (js ''content-type'') e (orStr (originHeader req) [])"
  have s: "validateShape ContactIntake p e shape =
             Inl (ReferenceError (notDefinedMessage p (js ''enforceByteLimits'')))"
    by (simp add: contact_validateShape v)
  have "intakeFetch ContactIntake p e req =
          ingress ContactIntake p e req (orStr (originHeader req) []) ?C"
    using assms(1,2) by (rule intakeFetch_post)
  also have "\<dots> = json (VObj [(js ''error'', VStr (js ''validation_error'')),
                       (js ''message'',
                        VStr (errorText (ReferenceError (notDefinedMessage p (js ''enforceByteLimits'')))))])
             400 ?C"
    using assms(3-8) s by (rule ingress_rejected)
  finally show ?thesis .
qed

text \<open>The example submission passes the schema of the contact intake.\<close>

lemma example_contact_schema:
  "validateAgainstSchema ContactIntake (nfkc examplePlatform) (js ''contact'') CONTACT_SCHEMA
     (sanitizeValue (nfkc examplePlatform) submissionA) =
     Inr [(js ''Name'', VStr (js ''Jo'')), (js ''Email'', VStr (js ''a@b.co'')),
          (js ''Contact Number'', VStr []), (js ''Preferred Date'', VStr []),
          (js ''Preferred Time'', VStr []),
          (js ''What are you interested in?'', VStr (js ''IT Support'')),
          (js ''Comments'', VStr [])]"
  by code_simp

text \<open>
  The sanitizer keeps the keys of an object, so a value without a key \<open>__proto__\<close> or
  \<open>toString\<close> has a sanitized copy without one.
\<close>

lemma sanitizeValue_plain: "plainJson v \<Longrightarrow> plainJson (sanitizeValue nf v)"
  by (induction nf v rule: sanitizeValue.induct) (auto simp add: list_all_iff comp_def)

lemma example_plain: "plainJson submissionA"
  by (simp add: submissionA_def js_def)

text \<open>
  Claim C5 says that, for every submission that passes validation, a downstream status
  outside 200 to 299 comes back to the caller as the status of the response, with
  \<open>transit_rejected\<close>, and a status from 200 to 299 gives 202 \<open>accepted_by_transit\<close>.
  The code attempts this, for every status alike, and misses in two places. In the join
  intake a response with a body cannot carry the status 304: \<open>json\<close> throws, inside the
  \<open>try\<close> block, and the \<open>catch\<close> turns a downstream 304 into 200 \<open>validated_only\<close>.
  In the contact intake the example submission passes \<open>validateAgainstSchema\<close>, the
  call of \<open>enforceByteLimits\<close> that follows throws a \<open>ReferenceError\<close>, and the
  submission is answered with 400 \<open>validation_error\<close> where the downstream would
  accept it.
\<close>

theorem intake_forward_divergence:
  "intakeFetch JoinIntake examplePlatform (exampleEnv\<lparr>TRANSIT := Some (\<lambda>b. Responded 304)\<rparr>)
     (examplePost (js ''/ingress/join'') textA) =
     json (VObj [(js ''status'', VStr (js ''validated_only'')),
                 (js ''message'', VStr (js ''Transit not configured''))]) 200
       (cors (js ''content-type'') exampleEnv (js ''https://b.example'')) \<and>
   validateAgainstSchema ContactIntake (nfkc examplePlatform) (js ''contact'') CONTACT_SCHEMA
     (sanitizeValue (nfkc examplePlatform) submissionA) =
     Inr [(js ''Name'', VStr (js ''Jo'')), (js ''Email'', VStr (js ''a@b.co'')),
          (js ''Contact Number'', VStr []), (js ''Preferred Date'', VStr []),
          (js ''Preferred Time'', VStr []),
          (js ''What are you interested in?'', VStr (js ''IT Support'')),
          (js ''Comments'', VStr [])] \<and>
   intakeFetch ContactIntake examplePlatform (exampleEnv\<lparr>TRANSIT := Some (\<lambda>b. Responded 202)\<rparr>)
     (examplePost (js ''/ingress/contact'') textA) =
     json (VObj [(js ''error'', VStr (js ''validation_error'')),
                 (js ''message'', VStr (js ''enforceByteLimits is not defined''))]) 400
       (cors (js ''content-type'') exampleEnv (js ''https://b.example''))"
proof -
  let ?req = "examplePost (js ''/ingress/contact'') textA"
  have j: "intakeFetch JoinIntake examplePlatform (exampleEnv\<lparr>TRANSIT := Some (\<lambda>b. Responded 304)\<rparr>)
     (examplePost (js ''/ingress/join'') textA) =
     json (VObj [(js ''status'', VStr (js ''validated_only'')),
                 (js ''message'', VStr (js ''Transit not configured''))]) 200
       (cors (js ''content-type'') exampleEnv (js ''https://b.example''))"
    unfolding example_validated
    by (simp add: forward_def relay_def acceptsBody_def validatedOnly_def)
  have 1: "httpMethod ?req = js ''POST''" by (simp add: example_request)
  have 2: "pathname ?req = ingressPath ContactIntake" by (simp add: example_request)
  have 4: "bodyText ?req = Some textA" by (simp add: example_request)
  have 7: "shapeOf submissionA = Some submissionA" and 8: "\<not> invalidShape (Some submissionA)"
    using example_shape by simp_all
  have m: "errorText (ReferenceError (notDefinedMessage examplePlatform (js ''enforceByteLimits'')))
             = js ''enforceByteLimits is not defined''"
    by (simp add: examplePlatform_def js_def)
  have c: "intakeFetch ContactIntake examplePlatform (exampleEnv\<lparr>TRANSIT := Some (\<lambda>b. Responded 202)\<rparr>) ?req =
     json (VObj [(js ''error'', VStr (js ''validation_error'')),
                 (js ''message'', VStr (js ''enforceByteLimits is not defined''))]) 400
       (cors (js ''content-type'') exampleEnv (js ''https://b.example''))"
    using contact_never_forwards[OF 1 2 example_allowed_transit 4 example_within_limit
            example_parse 7 8 example_contact_schema]
    unfolding example_cors_transit m .
  from j example_contact_schema c show ?thesis by (intro conjI)
qed

text \<open>
  The join intake on the example submission: a downstream 202 and 503, a call that
  throws, and no downstream.
\<close>

lemma join_forward_examples:
  "intakeFetch JoinIntake examplePlatform (exampleEnv\<lparr>TRANSIT := Some (\<lambda>b. Responded 202)\<rparr>)
     (examplePost (js ''/ingress/join'') textA) =
     json (VObj [(js ''status'', VStr (js ''accepted_by_transit''))]) 202
       (cors (js ''content-type'') exampleEnv (js ''https://b.example'')) \<and>
   intakeFetch JoinIntake examplePlatform (exampleEnv\<lparr>TRANSIT := Some (\<lambda>b. Responded 503)\<rparr>)
     (examplePost (js ''/ingress/join'') textA) =
     json (VObj [(js ''status'', VStr (js ''transit_rejected'')), (js ''code'', VNum (js ''503''))]) 503
       (cors (js ''content-type'') exampleEnv (js ''https://b.example'')) \<and>
   intakeFetch JoinIntake examplePlatform (exampleEnv\<lparr>TRANSIT := Some (\<lambda>b. Threw)\<rparr>)
     (examplePost (js ''/ingress/join'') textA) =
     json (VObj [(js ''status'', VStr (js ''validated_only'')),
                 (js ''message'', VStr (js ''Transit not configured''))]) 200
       (cors (js ''content-type'') exampleEnv (js ''https://b.example'')) \<and>
   intakeFetch JoinIntake examplePlatform exampleEnv (examplePost (js ''/ingress/join'') textA) =
     json (VObj [(js ''status'', VStr (js ''validated_only'')),
                 (js ''message'', VStr (js ''Transit not configured''))]) 200
       (cors (js ''content-type'') exampleEnv (js ''https://b.example''))"
proof -
  let ?req = "examplePost (js ''/ingress/join'') textA"
  have 1: "httpMethod ?req = js ''POST''" by (simp add: example_request)
  have 2: "pathname ?req = ingressPath JoinIntake" by (simp add: example_request)
  have 4: "bodyText ?req = Some textA" by (simp add: example_request)
  have 7: "shapeOf submissionA = Some submissionA" and 8: "\<not> invalidShape (Some submissionA)"
    using example_shape by simp_all
  have s: "js ''503'' = [53, 48, 51]" by (simp add: js_def)
  have n: "exampleEnv\<lparr>TRANSIT := None\<rparr> = exampleEnv" by (simp add: exampleEnv_def)
  have d: "downstream JoinIntake examplePlatform exampleEnv flds = None" for flds
    by (simp add: downstream_def exampleEnv_def orStr_def)
  note th = join_forward_outcome[OF 1 2 example_allowed_transit 4 example_within_limit
              example_parse example_plain 7 8 example_validateShape_transit,
              unfolded example_cors_transit]
  from th[of "Some (\<lambda>b. Responded 202)"] th[of "Some (\<lambda>b. Responded 503)"]
    th[of "Some (\<lambda>b. Threw)"] th[of None]
  show ?thesis
    unfolding example_downstream n d s by (simp add: acceptsBody_def)
qed

subsection \<open>Intake: the size of the body\<close>

text \<open>
  Claim C6: a \<open>POST /ingress/<form>\<close> from an allowed origin whose body is longer, in
  UTF-8 bytes, than the configured \<open>MAX_BODY_BYTES\<close> (256000 when it is not set) is
  answered with 413 \<open>payload_too_large\<close>. \<open>JSON.parse\<close> has no part in it: the
  response is the same for every platform, so for every way the body may parse or fail
  to parse.
\<close>

theorem intake_payload_too_large:
  assumes "httpMethod req = js ''POST''" and "pathname req = ingressPath w"
    and "isAllowedOrigin e (orStr (originHeader req) [])"
    and "bodyText req = Some bodyTxt"
    and "int (byteLen bodyTxt) > toInt (orStr (MAX_BODY_BYTES e) (js ''256000''))"
  shows "intakeFetch w p e req =
           json (errorBody ''payload_too_large'') 413
             (cors (js ''content-type'') e (orStr (originHeader req) [])) \<and>
         intakeFetch w p' e req = intakeFetch w p e req"
proof -
  have "\<And>q. intakeFetch w q e req =
           json (errorBody ''payload_too_large'') 413
             (cors (js ''content-type'') e (orStr (originHeader req) []))"
    using assms by (simp add: intakeFetch_post ingress_def)
  then show ?thesis by simp
qed

theorem intake_payload_too_large_witness:
  "int (byteLen textA) > toInt (orStr (MAX_BODY_BYTES (exampleEnv\<lparr>MAX_BODY_BYTES := Some (js ''50'')\<rparr>)) (js ''256000'')) \<and>
   intakeFetch ContactIntake examplePlatform (exampleEnv\<lparr>MAX_BODY_BYTES := Some (js ''50'')\<rparr>)
     (examplePost (js ''/ingress/contact'') textA) =
     json (errorBody ''payload_too_large'') 413
       (cors (js ''content-type'') exampleEnv (js ''https://b.example'')) \<and>
   int (byteLen (replicate 256001 0x61)) > toInt (orStr (MAX_BODY_BYTES exampleEnv) (js ''256000'')) \<and>
   intakeFetch JoinIntake examplePlatform exampleEnv
     (examplePost (js ''/ingress/join'') (replicate 256001 0x61)) =
     json (errorBody ''payload_too_large'') 413
       (cors (js ''content-type'') exampleEnv (js ''https://b.example''))"
proof -
  let ?e = "exampleEnv\<lparr>MAX_BODY_BYTES := Some (js ''50'')\<rparr>"
  have t50: "toInt (js ''50'') = 50"
    by (simp add: toInt_def parseInt10_def digitsValue_def js_def isSpace_def isDigit_def)
  have l1: "int (byteLen textA) > toInt (orStr (MAX_BODY_BYTES ?e) (js ''256000''))"
  proof -
    have "js ''50'' \<noteq> []" by (simp add: js_def)
    then show ?thesis by (simp add: textA_size orStr_def t50)
  qed
  have "byteLen (replicate 256001 0x61) = 256001"
    by (simp add: byteLen_def utf8Length_ascii list_all_iff)
  then have l2: "int (byteLen (replicate 256001 0x61))
                   > toInt (orStr (MAX_BODY_BYTES exampleEnv) (js ''256000''))"
    by (simp add: exampleEnv_def orStr_None toInt_default)
  have a1: "isAllowedOrigin ?e (orStr (originHeader (examplePost path b)) [])" for path b
    by (rule example_allowed) simp
  have a2: "isAllowedOrigin exampleEnv (orStr (originHeader (examplePost path b)) [])" for path b
    by (rule example_allowed) simp
  have c1: "cors ah ?e (orStr (originHeader (examplePost path b)) [])
              = cors ah exampleEnv (js ''https://b.example'')" for ah path b
    by (rule example_cors) simp
  have c2: "cors ah exampleEnv (orStr (originHeader (examplePost path b)) [])
              = cors ah exampleEnv (js ''https://b.example'')" for ah path b
    by (rule example_cors) simp
  have pc: "js ''/ingress/contact'' = ingressPath ContactIntake"
    and pj: "js ''/ingress/join'' = ingressPath JoinIntake" by simp_all
  from intake_payload_too_large[where w=ContactIntake and p=examplePlatform and p'=examplePlatform,
         OF example_request(1) _ a1 example_request(3) l1, of "js ''/ingress/contact''"]
    intake_payload_too_large[where w=JoinIntake and p=examplePlatform and p'=examplePlatform,
         OF example_request(1) _ a2 example_request(3) l2, of "js ''/ingress/join''"]
  show ?thesis unfolding c1 c2 using l1 l2 by (simp add: example_request)
qed

subsection \<open>Intake: the empty body\<close>

lemma validateShape_empty:
  "validateShape w p e (VObj []) = Inl (Error (js ''missing: Name''))"
proof -
  have "validateAgainstSchema w (nfkc p) (formOf w) (schemaOf w) (VObj [])
          = Inl (js ''missing: '' @ js ''Name'')"
    by (cases w)
       (simp_all add: validateAgainstSchema_def unexpectedField_def objectKeys_def
          CONTACT_SCHEMA_def JOIN_SCHEMA_def getProp_def isMissing_def Let_def)
  moreover have "js ''missing: '' @ js ''Name'' = js ''missing: Name''" by (simp add: js_def)
  ultimately show ?thesis by (simp add: validateShape_def)
qed

text \<open>
  Claim C9 says that every \<open>POST /ingress/<form>\<close> from an allowed origin with an
  empty body is answered with 400 \<open>validation_error\<close>, \<open>missing: Name\<close>. The size
  check comes first and compares the length, 0, with \<open>toInt(MAX_BODY_BYTES)\<close>, which
  is negative for a setting such as \<open>-1\<close>: then the answer is 413.
\<close>

theorem intake_empty_body_negative_limit:
  "httpMethod (examplePost (js ''/ingress/contact'') []) = js ''POST'' \<and>
   pathname (examplePost (js ''/ingress/contact'') []) = ingressPath ContactIntake \<and>
   bodyText (examplePost (js ''/ingress/contact'') []) = Some [] \<and>
   isAllowedOrigin (exampleEnv\<lparr>MAX_BODY_BYTES := Some (js ''-1'')\<rparr>)
     (orStr (originHeader (examplePost (js ''/ingress/contact'') [])) []) \<and>
   jsonParse examplePlatform (js ''{}'') = Some (VObj []) \<and>
   intakeFetch ContactIntake examplePlatform (exampleEnv\<lparr>MAX_BODY_BYTES := Some (js ''-1'')\<rparr>)
     (examplePost (js ''/ingress/contact'') []) =
     json (errorBody ''payload_too_large'') 413
       (cors (js ''content-type'') exampleEnv (js ''https://b.example''))"
proof -
  let ?e = "exampleEnv\<lparr>MAX_BODY_BYTES := Some (js ''-1'')\<rparr>"
  let ?req = "examplePost (js ''/ingress/contact'') []"
  have a: "isAllowedOrigin ?e (orStr (originHeader ?req) [])"
    by (rule example_allowed) simp
  have c: "cors (js ''content-type'') ?e (orStr (originHeader ?req) [])
             = cors (js ''content-type'') exampleEnv (js ''https://b.example'')"
    by (rule example_cors) simp
  have m: "MAX_BODY_BYTES ?e = Some (js ''-1'')" by simp
  have t: "toInt (orStr (Some (js ''-1'')) (js ''256000'')) = - 1"
    by (simp add: toInt_def parseInt10_def digitsValue_def orStr_def js_def isSpace_def isDigit_def)
  have p: "jsonParse examplePlatform (js ''{}'') = Some (VObj [])"
    by (simp add: examplePlatform_def)
  have "intakeFetch ContactIntake examplePlatform ?e ?req =
          ingress ContactIntake examplePlatform ?e ?req (orStr (originHeader ?req) [])
            (cors (js ''content-type'') ?e (orStr (originHeader ?req) []))"
    by (rule intakeFetch_post) (simp_all add: example_request)
  also have "\<dots> = json (errorBody ''payload_too_large'') 413
       (cors (js ''content-type'') exampleEnv (js ''https://b.example''))"
    unfolding ingress_def c using a by (simp add: example_request m t byteLen_def)
  finally show ?thesis using a p by (simp add: example_request)
qed

text \<open>
  Claim C9, as amended: when the configured \<open>MAX_BODY_BYTES\<close> is not negative, a
  \<open>POST /ingress/<form>\<close> from an allowed origin with an empty body parses \<open>{}\<close>
  in its place, takes the empty object as the field map, and is answered with 400
  \<open>validation_error\<close> and the message \<open>missing: Name\<close>.
\<close>

theorem intake_empty_body:
  assumes "httpMethod req = js ''POST''" and "pathname req = ingressPath w"
    and "isAllowedOrigin e (orStr (originHeader req) [])"
    and "bodyText req = Some []"
    and "0 \<le> toInt (orStr (MAX_BODY_BYTES e) (js ''256000''))"
    and "jsonParse p (js ''{}'') = Some (VObj [])"
  shows "intakeFetch w p e req =
           json (VObj [(js ''error'', VStr (js ''validation_error'')),
                       (js ''message'', VStr (js ''missing: Name''))]) 400
             (cors (js ''content-type'') e (orStr (originHeader req) []))"
proof -
  have sh: "shapeOf (VObj []) = Some (VObj [])" by (simp add: shapeOf_def getProp_def)
  have ok: "\<not> invalidShape (Some (VObj []))" by (simp add: invalidShape_def)
  have et: "errorText (Error (js ''missing: Name'')) = js ''missing: Name''"
    by (simp add: js_def)
  show ?thesis
    using assms sh ok et
    by (simp add: intakeFetch_post ingress_def byteLen_def validateShape_empty Let_def)
qed

theorem intake_empty_body_witness:
  "0 \<le> toInt (orStr (MAX_BODY_BYTES exampleEnv) (js ''256000'')) \<and>
   intakeFetch ContactIntake examplePlatform exampleEnv (examplePost (js ''/ingress/contact'') []) =
     json (VObj [(js ''error'', VStr (js ''validation_error'')),
                 (js ''message'', VStr (js ''missing: Name''))]) 400
       (cors (js ''content-type'') exampleEnv (js ''https://b.example'')) \<and>
   intakeFetch JoinIntake examplePlatform exampleEnv (examplePost (js ''/ingress/join'') []) =
     json (VObj [(js ''error'', VStr (js ''validation_error'')),
                 (js ''message'', VStr (js ''missing: Name''))]) 400
       (cors (js ''content-type'') exampleEnv (js ''https://b.example''))"
proof -
  have a: "isAllowedOrigin exampleEnv (orStr (originHeader (examplePost path b)) [])" for path b
    by (rule example_allowed) simp
  have c: "cors ah exampleEnv (orStr (originHeader (examplePost path b)) [])
              = cors ah exampleEnv (js ''https://b.example'')" for ah path b
    by (rule example_cors) simp
  have l: "0 \<le> toInt (orStr (MAX_BODY_BYTES exampleEnv) (js ''256000''))"
    by (simp add: exampleEnv_def orStr_None toInt_default)
  have p: "jsonParse examplePlatform (js ''{}'') = Some (VObj [])"
    by (simp add: examplePlatform_def)
  from intake_empty_body[where w=ContactIntake and p=examplePlatform and e=exampleEnv
         and req="examplePost (js ''/ingress/contact'') []", OF _ _ a _ l p]
    intake_empty_body[where w=JoinIntake and p=examplePlatform and e=exampleEnv
         and req="examplePost (js ''/ingress/join'') []", OF _ _ a _ l p]
  show ?thesis unfolding c using l by (simp add: example_request)
qed

subsection \<open>Sheet logger: the bearer token\<close>

lemma expectedAuth_ne: "expectedAuth e \<noteq> []"
  by (simp add: expectedAuth_def js_def)

lemma orStr_eq_iff: "d \<noteq> [] \<Longrightarrow> orStr h [] = d \<longleftrightarrow> h = Some d"
  by (auto simp add: orStr_def split: option.splits)

lemma logBranch_passed:
  assumes "orStr (authorizationHeader req) [] = expectedAuth e"
  shows "logBranch p sh e req C =
     (case (case bodyText req of None \<Rightarrow> None | Some bodyTxt \<Rightarrow> jsonParse p bodyTxt) of
        None \<Rightarrow> (json (errorBody ''bad_json'') 400 C, [])
      | Some payload \<Rightarrow>
          (if fst (appendToSheet sh)
           then (json (VObj [(js ''ok'', VBool True)]) 200 C, snd (appendToSheet sh))
           else (json (errorBody ''sheet_error'') 500 C, snd (appendToSheet sh))))"
  using assms
  by (cases "appendToSheet sh") (auto simp add: logBranch_def Let_def split: option.splits bool.splits)

text \<open>
  Claim C8: with a secret configured, a \<open>POST /log\<close> whose \<open>Authorization\<close> header
  is not exactly \<open>Bearer \<close> followed by the secret is answered with 401
  \<open>unauthorized\<close> and calls neither the token endpoint nor the spreadsheet; and a
  request whose header is exactly that string is not answered with 401.
\<close>

theorem sheetLogger_auth_gate:
  assumes "httpMethod req = js ''POST''" and "pathname req = js ''/log''"
    and "API_TOKEN e = Some secret"
  shows "(authorizationHeader req \<noteq> Some (js ''Bearer '' @ secret) \<longrightarrow>
            sheetFetch p sh e req =
              (json (errorBody ''unauthorized'') 401
                 (cors (js ''content-type, authorization'') e (orStr (originHeader req) [])), [])) \<and>
         (authorizationHeader req = Some (js ''Bearer '' @ secret) \<longrightarrow>
            status (fst (sheetFetch p sh e req)) \<noteq> 401)"
proof -
  have ex: "expectedAuth e = js ''Bearer '' @ secret"
    using assms(3) by (simp add: expectedAuth_def)
  have iff: "orStr (authorizationHeader req) [] = expectedAuth e \<longleftrightarrow>
             authorizationHeader req = Some (js ''Bearer '' @ secret)"
    using orStr_eq_iff[OF expectedAuth_ne, of "authorizationHeader req" e] ex by simp
  show ?thesis
  proof (intro conjI impI)
    assume "authorizationHeader req \<noteq> Some (js ''Bearer '' @ secret)"
    with iff have "orStr (authorizationHeader req) [] \<noteq> expectedAuth e" by simp
    then show "sheetFetch p sh e req =
              (json (errorBody ''unauthorized'') 401
                 (cors (js ''content-type, authorization'') e (orStr (originHeader req) [])), [])"
      using assms(1,2) by (simp add: sheetFetch_post logBranch_def Let_def)
  next
    assume "authorizationHeader req = Some (js ''Bearer '' @ secret)"
    with iff have "orStr (authorizationHeader req) [] = expectedAuth e" by simp
    then show "status (fst (sheetFetch p sh e req)) \<noteq> 401"
      using assms(1,2)
      by (simp add: sheetFetch_post logBranch_passed json_def split: option.splits)
  qed
qed

theorem sheetLogger_auth_gate_witness:
  "status (fst (sheetFetch examplePlatform exampleSheets (exampleEnv\<lparr>API_TOKEN := Some (js ''s3cret'')\<rparr>)
     ((examplePost (js ''/log'') textA)\<lparr>authorizationHeader := Some (js ''Bearer s3cret'')\<rparr>))) \<noteq> 401 \<and>
   sheetFetch examplePlatform exampleSheets (exampleEnv\<lparr>API_TOKEN := Some (js ''s3cret'')\<rparr>)
     ((examplePost (js ''/log'') textA)\<lparr>authorizationHeader := Some (js ''Bearer s3cre'')\<rparr>) =
     (json (errorBody ''unauthorized'') 401
        (cors (js ''content-type, authorization'') exampleEnv (js ''https://b.example'')), []) \<and>
   sheetFetch examplePlatform exampleSheets (exampleEnv\<lparr>API_TOKEN := Some (js ''s3cret'')\<rparr>)
     ((examplePost (js ''/log'') textA)\<lparr>authorizationHeader := None\<rparr>) =
     (json (errorBody ''unauthorized'') 401
        (cors (js ''content-type, authorization'') exampleEnv (js ''https://b.example'')), [])"
proof -
  let ?e = "exampleEnv\<lparr>API_TOKEN := Some (js ''s3cret'')\<rparr>"
  have tk: "API_TOKEN ?e = Some (js ''s3cret'')" by simp
  have b: "js ''Bearer '' @ js ''s3cret'' = js ''Bearer s3cret''" by (simp add: js_def)
  have ne: "js ''Bearer s3cre'' \<noteq> js ''Bearer s3cret''" by (simp add: js_def)
  have c: "cors ah ?e (orStr (originHeader ((examplePost path b)\<lparr>authorizationHeader := h\<rparr>)) [])
              = cors ah exampleEnv (js ''https://b.example'')" for ah path b h
    unfolding example_request_auth by (rule example_cors) simp
  let ?r = "\<lambda>h. (examplePost (js ''/log'') textA)\<lparr>authorizationHeader := h\<rparr>"
  note th = sheetLogger_auth_gate[where p=examplePlatform and sh=exampleSheets and e="?e"
              and secret="js ''s3cret''", OF _ _ tk]
  from th[where req="?r (Some (js ''Bearer s3cret''))"]
    th[where req="?r (Some (js ''Bearer s3cre''))"] th[where req="?r None"] ne
  show ?thesis unfolding b c by (simp add: example_request_auth)
qed

text \<open>
  Claim C10: when \<open>API_TOKEN\<close> is not set, the header \<open>Bearer undefined\<close> passes
  the check: the request is not answered with 401, it goes on to parse the body and to
  \<open>appendToSheet\<close>, and the token exchange is called when the body parses and the
  assertion can be signed.
\<close>

theorem sheetLogger_unset_token:
  assumes "httpMethod req = js ''POST''" and "pathname req = js ''/log''"
    and "API_TOKEN e = None"
    and "authorizationHeader req = Some (js ''Bearer undefined'')"
  shows "status (fst (sheetFetch p sh e req)) \<noteq> 401 \<and>
         sheetFetch p sh e req =
           (case (case bodyText req of None \<Rightarrow> None | Some bodyTxt \<Rightarrow> jsonParse p bodyTxt) of
              None \<Rightarrow>
                (json (errorBody ''bad_json'') 400
                   (cors (js ''content-type, authorization'') e (orStr (originHeader req) [])), [])
            | Some payload \<Rightarrow>
                (if fst (appendToSheet sh)
                 then (json (VObj [(js ''ok'', VBool True)]) 200
                         (cors (js ''content-type, authorization'') e (orStr (originHeader req) [])),
                       snd (appendToSheet sh))
                 else (json (errorBody ''sheet_error'') 500
                         (cors (js ''content-type, authorization'') e (orStr (originHeader req) [])),
                       snd (appendToSheet sh)))) \<and>
         (signs sh \<and> bodyText req = Some bodyTxt \<and> jsonParse p bodyTxt = Some payload \<longrightarrow>
            TokenExchange \<in> set (snd (sheetFetch p sh e req)))"
proof -
  have ex: "expectedAuth e = js ''Bearer undefined''"
    using assms(3) by (simp add: expectedAuth_def js_def)
  have a: "orStr (authorizationHeader req) [] = expectedAuth e"
    using assms(4) ex by (simp add: orStr_def js_def)
  have te: "signs sh \<Longrightarrow> TokenExchange \<in> set (snd (appendToSheet sh))"
    by (auto simp add: appendToSheet_def getAccessToken_def split: outcome.splits option.splits)
  show ?thesis
    using assms(1,2) a te
    by (auto simp add: sheetFetch_post logBranch_passed json_def split: option.splits)
qed

theorem sheetLogger_unset_token_witness:
  "API_TOKEN exampleEnv = None \<and>
   sheetFetch examplePlatform exampleSheets exampleEnv
     ((examplePost (js ''/log'') textA)\<lparr>authorizationHeader := Some (js ''Bearer undefined'')\<rparr>) =
     (json (VObj [(js ''ok'', VBool True)]) 200
        (cors (js ''content-type, authorization'') exampleEnv (js ''https://b.example'')),
      [TokenExchange, SheetAppend])"
proof -
  have tk: "API_TOKEN exampleEnv = None" by (simp add: exampleEnv_def)
  have c: "cors ah exampleEnv (orStr (originHeader ((examplePost path b)\<lparr>authorizationHeader := h\<rparr>)) [])
              = cors ah exampleEnv (js ''https://b.example'')" for ah path b h
    unfolding example_request_auth by (rule example_cors) simp
  have p: "jsonParse examplePlatform textA = Some submissionA"
    by (simp add: examplePlatform_def textA_def js_def)
  from sheetLogger_unset_token[where p=examplePlatform and sh=exampleSheets and e=exampleEnv
         and req="(examplePost (js ''/log'') textA)\<lparr>authorizationHeader := Some (js ''Bearer undefined'')\<rparr>"
         and bodyTxt=textA and payload=submissionA, OF _ _ tk]
  show ?thesis unfolding c using tk p by (simp add: example_appendToSheet example_request_auth)
qed


end
